theory Spec2Isabelle
  imports Main "HOL-Library.AList"
begin

section \<open>JavaScript string primitives used by the worker\<close>

text \<open>
  Strings are lists of 8-bit characters. \<open>s.split(sep)\<close> with a one-character separator
  always returns at least one piece; \<open>split_acc\<close> carries the piece being read, reversed.
\<close>

fun split_acc :: "char \<Rightarrow> string \<Rightarrow> string \<Rightarrow> string list" where
  "split_acc sep acc [] = [rev acc]"
| "split_acc sep acc (x # xs) =
     (if x = sep then rev acc # split_acc sep [] xs else split_acc sep (x # acc) xs)"

definition split :: "char \<Rightarrow> string \<Rightarrow> string list" where
  "split sep s = split_acc sep [] s"

text \<open>\<open>s.startsWith(p)\<close> and \<open>s.slice(n)\<close> for \<open>n \<ge> 0\<close>.\<close>

definition startsWith :: "string \<Rightarrow> string \<Rightarrow> bool" where
  "startsWith s p = (take (length p) s = p)"

definition slice :: "string \<Rightarrow> nat \<Rightarrow> string" where
  "slice s n = drop n s"

text \<open>
  Truthiness of a value that is either \<open>undefined\<close> (\<open>None\<close>) or a string: only a
  non-empty string is truthy.
\<close>

fun truthy :: "string option \<Rightarrow> bool" where
  "truthy None = False"
| "truthy (Some s) = (s \<noteq> [])"

section \<open>Base64: the platform functions \<open>btoa\<close> and \<open>atob\<close>\<close>

definition b64_alphabet :: string where
  "b64_alphabet = ''ABCDEFGHIJKLMNOPQRSTUVWXYZabcdefghijklmnopqrstuvwxyz0123456789+/''"

definition b64_char :: "nat \<Rightarrow> char" where
  "b64_char n = b64_alphabet ! n"

primrec index_of :: "'a \<Rightarrow> 'a list \<Rightarrow> nat option" where
  "index_of c [] = None"
| "index_of c (x # xs) = (if c = x then Some 0 else map_option Suc (index_of c xs))"

definition b64_index :: "char \<Rightarrow> nat option" where
  "b64_index c = index_of c b64_alphabet"

text \<open>
  \<open>btoa\<close>: three bytes become four 6-bit groups; a final group of one or two bytes is
  cut short and padded with \<open>=\<close>. On 8-bit characters \<open>btoa\<close> never throws.
\<close>

fun enc_groups :: "nat list \<Rightarrow> nat list" where
  "enc_groups (a # b # c # r) =
     [a div 4, (a mod 4) * 16 + b div 16, (b mod 16) * 4 + c div 64, c mod 64] @ enc_groups r"
| "enc_groups [a, b] = [a div 4, (a mod 4) * 16 + b div 16, (b mod 16) * 4]"
| "enc_groups [a] = [a div 4, (a mod 4) * 16]"
| "enc_groups [] = []"

definition btoa :: "string \<Rightarrow> string" where
  "btoa s = map b64_char (enc_groups (map of_char s))
              @ replicate ((3 - length s mod 3) mod 3) (CHR ''='')"

text \<open>
  \<open>atob\<close> is the forgiving base64 decoder: ASCII whitespace is dropped, one or two
  trailing \<open>=\<close> are removed when the length is a multiple of four, a length of
  \<open>1 mod 4\<close> or a character outside the alphabet is an error (the thrown
  \<open>InvalidCharacterError\<close> is the value \<open>None\<close>), and left-over bits are discarded.
\<close>

definition is_ascii_whitespace :: "char \<Rightarrow> bool" where
  "is_ascii_whitespace c = ((of_char c :: nat) \<in> {9, 10, 12, 13, 32})"

definition strip_padding :: "string \<Rightarrow> string" where
  "strip_padding d =
     (case rev d of
        x # y # r \<Rightarrow> if x = CHR ''='' \<and> y = CHR ''='' then rev r
                     else if x = CHR ''='' then rev (y # r) else d
      | [x] \<Rightarrow> if x = CHR ''='' then [] else d
      | [] \<Rightarrow> d)"

fun dec_groups :: "nat list \<Rightarrow> nat list" where
  "dec_groups (w # x # y # z # r) =
     [w * 4 + x div 16, (x mod 16) * 16 + y div 4, (y mod 4) * 64 + z] @ dec_groups r"
| "dec_groups [w, x, y] = [w * 4 + x div 16, (x mod 16) * 16 + y div 4]"
| "dec_groups [w, x] = [w * 4 + x div 16]"
| "dec_groups [w] = []"
| "dec_groups [] = []"

definition atob :: "string \<Rightarrow> string option" where
  "atob data =
     (let d1 = filter (\<lambda>c. \<not> is_ascii_whitespace c) data;
          d2 = (if length d1 mod 4 = 0 then strip_padding d1 else d1)
      in if length d2 mod 4 = 1 then None
         else case those (map b64_index d2) of
                None \<Rightarrow> None
              | Some vs \<Rightarrow> Some (map char_of (dec_groups vs)))"

section \<open>Requests and responses\<close>

text \<open>
  Of a request the worker reads the HTTP verb (\<open>request.method\<close>), the path of the URL, the value of
  \<open>headers.get('Authorization')\<close> (\<open>None\<close> when the header is absent) and the body
  parsed by \<open>request.json()\<close>: \<open>None\<close> when parsing throws, otherwise the string
  fields of the object (\<open>b k = None\<close> when the property is \<open>undefined\<close>).
\<close>

record request =
  req_method :: string
  pathname :: string
  authorization :: "string option"
  body :: "(string \<rightharpoonup> string) option"

datatype json = JNull | JStr string | JArr "json list" | JObj "(string \<times> json) list"

text \<open>A body is absent, plain text, or \<open>JSON.stringify\<close> of a value.\<close>

datatype resp_body = NoBody | Text string | Json json

record response =
  status :: nat
  headers :: "(string \<times> string) list"
  rbody :: resp_body

text \<open>The property names that occur in a JSON value, at any depth.\<close>

fun json_keys :: "json \<Rightarrow> string list" where
  "json_keys (JObj kvs) = concat (map (\<lambda>kv. fst kv # json_keys (snd kv)) kvs)"
| "json_keys (JArr xs) = concat (map json_keys xs)"
| "json_keys (JStr s) = []"
| "json_keys JNull = []"

definition jsonResponse :: "json \<Rightarrow> nat \<Rightarrow> response" where
  "jsonResponse data st =
     \<lparr>status = st,
      headers = [(''Content-Type'', ''application/json''),
                 (''Access-Control-Allow-Origin'', ''*'')],
      rbody = Json data\<rparr>"

definition errorResponse :: "string \<Rightarrow> nat \<Rightarrow> response" where
  "errorResponse message st = jsonResponse (JObj [(''error'', JStr message)]) st"

section \<open>Tokens: \<open>AuthController.generateToken\<close> and \<open>NotesController.authenticateRequest\<close>\<close>

text \<open>
  \<open>timestamp\<close> is \<open>Date.now().toString()\<close> and \<open>random\<close> is \<open>crypto.randomUUID()\<close>,
  both read by \<open>generateToken\<close> from the platform.
\<close>

definition generateToken :: "string \<Rightarrow> string \<Rightarrow> string \<Rightarrow> string" where
  "generateToken userId timestamp random =
     btoa (userId @ '':'' @ timestamp @ '':'' @ random)"

text \<open>
  \<open>authenticateRequest\<close>: both \<open>catch\<close> blocks return \<open>null\<close>; the only call that
  can throw is \<open>atob\<close>. The destructuring \<open>[userId] = decoded.split(':')\<close> takes the
  first piece, and \<open>userId || null\<close> turns the empty string into \<open>null\<close>.
\<close>

definition authenticateRequest :: "request \<Rightarrow> string option" where
  "authenticateRequest req =
     (case authorization req of
        None \<Rightarrow> None
      | Some authHeader \<Rightarrow>
          if authHeader = [] \<or> \<not> startsWith authHeader ''Bearer '' then None
          else
            let token = slice authHeader 7 in
            (case atob token of
               None \<Rightarrow> None
             | Some decoded \<Rightarrow>
                 (case split (CHR '':'') decoded of
                    [] \<Rightarrow> None
                  | userId # _ \<Rightarrow> if userId = [] then None else Some userId)))"

section \<open>The router\<close>

text \<open>
  A handler may change the stores it closes over and either returns a response or throws
  (a rejected promise): it maps the state to \<open>Inr\<close> a response or \<open>Inl\<close> the thrown
  value, together with the state it leaves behind.
\<close>

record ('s, 'e) route =
  route_method :: string
  route_path :: string
  handler :: "request \<Rightarrow> 's \<Rightarrow> ('e + response) \<times> 's"

text \<open>\<open>Router.get\<close>, \<open>post\<close>, \<open>put\<close> and \<open>delete\<close> push a route onto \<open>this.routes\<close>.\<close>

definition router_get ::
  "string \<Rightarrow> (request \<Rightarrow> 's \<Rightarrow> ('e + response) \<times> 's) \<Rightarrow> ('s, 'e) route list \<Rightarrow> ('s, 'e) route list" where
  "router_get p h routes = routes @ [\<lparr>route_method = ''GET'', route_path = p, handler = h\<rparr>]"

definition router_post ::
  "string \<Rightarrow> (request \<Rightarrow> 's \<Rightarrow> ('e + response) \<times> 's) \<Rightarrow> ('s, 'e) route list \<Rightarrow> ('s, 'e) route list" where
  "router_post p h routes = routes @ [\<lparr>route_method = ''POST'', route_path = p, handler = h\<rparr>]"

definition router_put ::
  "string \<Rightarrow> (request \<Rightarrow> 's \<Rightarrow> ('e + response) \<times> 's) \<Rightarrow> ('s, 'e) route list \<Rightarrow> ('s, 'e) route list" where
  "router_put p h routes = routes @ [\<lparr>route_method = ''PUT'', route_path = p, handler = h\<rparr>]"

definition router_delete ::
  "string \<Rightarrow> (request \<Rightarrow> 's \<Rightarrow> ('e + response) \<times> 's) \<Rightarrow> ('s, 'e) route list \<Rightarrow> ('s, 'e) route list" where
  "router_delete p h routes = routes @ [\<lparr>route_method = ''DELETE'', route_path = p, handler = h\<rparr>]"

text \<open>\<open>.filter(Boolean)\<close> on an array of strings drops the empty ones.\<close>

definition filterBoolean :: "string list \<Rightarrow> string list" where
  "filterBoolean parts = filter (\<lambda>p. p \<noteq> []) parts"

text \<open>Reading an array at an index: \<open>None\<close> is \<open>undefined\<close>, past the end.\<close>

fun nth_opt :: "'a list \<Rightarrow> nat \<Rightarrow> 'a option" where
  "nth_opt [] i = None"
| "nth_opt (x # xs) 0 = Some x"
| "nth_opt (x # xs) (Suc i) = nth_opt xs i"

text \<open>The \<open>for\<close> loop of \<open>matchPath\<close>, from index \<open>i\<close>.\<close>

function matchLoop :: "string list \<Rightarrow> string list \<Rightarrow> nat \<Rightarrow> bool" where
  "matchLoop routeParts requestParts i =
     (if i < length routeParts then
        (if startsWith (routeParts ! i) '':''
            \<or> nth_opt requestParts i = Some (routeParts ! i)
         then matchLoop routeParts requestParts (i + 1)
         else False)
      else True)"
  by pat_completeness auto
termination
  by (relation "measure (\<lambda>(routeParts, requestParts, i). length routeParts - i)") auto

declare matchLoop.simps [simp del]

definition matchPath :: "string \<Rightarrow> string \<Rightarrow> bool" where
  "matchPath routePath requestPath =
     (let routeParts = filterBoolean (split (CHR ''/'') routePath);
          requestParts = filterBoolean (split (CHR ''/'') requestPath)
      in if length routeParts \<noteq> length requestParts then False
         else matchLoop routeParts requestParts 0)"

text \<open>
  \<open>getPathParams\<close> fills a plain object: a key maps to a string or to \<open>undefined\<close>
  (the inner \<open>None\<close>, when the request has fewer parts than the pattern). Assigning a
  string or \<open>undefined\<close> to the key \<open>__proto__\<close> of a plain object creates no property.
\<close>

function paramsLoop ::
  "string list \<Rightarrow> string list \<Rightarrow> nat \<Rightarrow> (string \<rightharpoonup> string option) \<Rightarrow> (string \<rightharpoonup> string option)" where
  "paramsLoop routeParts requestParts i params =
     (if i < length routeParts then
        (if startsWith (routeParts ! i) '':'' then
           (let paramName = slice (routeParts ! i) 1 in
            paramsLoop routeParts requestParts (i + 1)
              (if paramName = ''__proto__'' then params
               else params(paramName \<mapsto> nth_opt requestParts i)))
         else paramsLoop routeParts requestParts (i + 1) params)
      else params)"
  by pat_completeness auto
termination
  by (relation "measure (\<lambda>(routeParts, requestParts, i, params). length routeParts - i)") auto

declare paramsLoop.simps [simp del]

definition getPathParams :: "string \<Rightarrow> string \<Rightarrow> (string \<rightharpoonup> string option)" where
  "getPathParams routePath requestPath =
     (let routeParts = filterBoolean (split (CHR ''/'') routePath);
          requestParts = filterBoolean (split (CHR ''/'') requestPath)
      in paramsLoop routeParts requestParts 0 Map.empty)"

definition preflightResponse :: response where
  "preflightResponse =
     \<lparr>status = 200,
      headers = [(''Access-Control-Allow-Origin'', ''*''),
                 (''Access-Control-Allow-Methods'', ''GET, POST, PUT, DELETE, OPTIONS''),
                 (''Access-Control-Allow-Headers'', ''Content-Type, Authorization'')],
      rbody = NoBody\<rparr>"

definition routeErrorResponse :: response where
  "routeErrorResponse =
     \<lparr>status = 500,
      headers = [(''Content-Type'', ''application/json''),
                 (''Access-Control-Allow-Origin'', ''*'')],
      rbody = Json (JObj [(''error'', JStr ''Route handler error'')])\<rparr>"

definition notFoundResponse :: response where
  "notFoundResponse =
     \<lparr>status = 404,
      headers = [(''Access-Control-Allow-Origin'', ''*'')],
      rbody = Text ''Not found''\<rparr>"

text \<open>
  \<open>Router.handle\<close>: \<open>this.routes.find\<close> returns the first route that satisfies the
  predicate; the \<open>try\<close>/\<open>catch\<close> around the handler turns every thrown value into the
  same 500 response.
\<close>

definition handle :: "('s, 'e) route list \<Rightarrow> request \<Rightarrow> 's \<Rightarrow> response \<times> 's" where
  "handle routes req s =
     (let path = pathname req; m = req_method req in
      if m = ''OPTIONS'' then (preflightResponse, s)
      else
        (case List.find (\<lambda>r. route_method r = m \<and> matchPath (route_path r) path) routes of
           Some route \<Rightarrow>
             (case handler route req s of
                (Inr resp, s') \<Rightarrow> (resp, s')
              | (Inl err, s') \<Rightarrow> (routeErrorResponse, s'))
         | None \<Rightarrow> (notFoundResponse, s)))"

section \<open>The key-value namespaces\<close>

text \<open>
  A namespace is an association list from keys to the stored values; the stored text is
  \<open>JSON.stringify\<close> of a record and is read back with \<open>get(key, 'json')\<close>, so the model
  stores the record. \<open>list({prefix})\<close> returns the keys that start with the prefix (all of
  them: paging is not modelled, and every operation of the namespace succeeds).
\<close>

type_synonym 'v kv = "(string \<times> 'v) list"

definition kv_get :: "'v kv \<Rightarrow> string \<Rightarrow> 'v option" where
  "kv_get s k = map_of s k"

definition kv_put :: "'v kv \<Rightarrow> string \<Rightarrow> 'v \<Rightarrow> 'v kv" where
  "kv_put s k v = AList.update k v s"

definition kv_delete :: "'v kv \<Rightarrow> string \<Rightarrow> 'v kv" where
  "kv_delete s k = AList.delete k s"

definition kv_list :: "'v kv \<Rightarrow> string \<Rightarrow> string list" where
  "kv_list s p = filter (\<lambda>k. startsWith k p) (map fst s)"

section \<open>\<open>AuthController\<close>\<close>

record user =
  user_id :: string
  username :: string
  passwordHash :: string
  user_createdAt :: string

definition publicUser :: "user \<Rightarrow> json" where
  "publicUser u =
     JObj [(''id'', JStr (user_id u)), (''username'', JStr (username u)),
           (''createdAt'', JStr (user_createdAt u))]"

definition authResponse :: "string \<Rightarrow> user \<Rightarrow> json" where
  "authResponse token u = JObj [(''token'', JStr token), (''user'', publicUser u)]"

text \<open>
  \<open>login\<close>. \<open>bcrypt_compare\<close> is \<open>bcrypt.compare\<close>; \<open>timestamp\<close> and \<open>random\<close> are what
  \<open>generateToken\<close> reads. A body that does not parse throws inside the \<open>try\<close> and gives
  the 500 of the \<open>catch\<close>. The USERS namespace is only read.
\<close>

definition login ::
  "(string \<Rightarrow> string \<Rightarrow> bool) \<Rightarrow> string \<Rightarrow> string \<Rightarrow> request \<Rightarrow> user kv \<Rightarrow> response" where
  "login bcrypt_compare timestamp random req users =
     (case body req of
        None \<Rightarrow> errorResponse ''Internal server error'' 500
      | Some b \<Rightarrow>
          if \<not> truthy (b ''username'') \<or> \<not> truthy (b ''password'')
          then errorResponse ''Username and password are required'' 400
          else
            (case (b ''username'', b ''password'') of
               (Some uname, Some password) \<Rightarrow>
                 (case kv_get users uname of
                    None \<Rightarrow> errorResponse ''Invalid credentials'' 401
                  | Some u \<Rightarrow>
                      if \<not> bcrypt_compare password (passwordHash u)
                      then errorResponse ''Invalid credentials'' 401
                      else jsonResponse
                             (authResponse (generateToken (user_id u) timestamp random) u) 200)
             | _ \<Rightarrow> errorResponse ''Username and password are required'' 400))"

text \<open>
  \<open>register\<close>. \<open>bcrypt_hash password 12 salt\<close> is \<open>bcrypt.hash(password, 12)\<close> with the
  salt it draws; \<open>uuid\<close> is \<open>crypto.randomUUID()\<close> and \<open>now\<close> is
  \<open>new Date().toISOString()\<close>.
\<close>

definition register ::
  "(string \<Rightarrow> nat \<Rightarrow> string \<Rightarrow> string) \<Rightarrow> string \<Rightarrow> string \<Rightarrow> string \<Rightarrow> string \<Rightarrow> string
     \<Rightarrow> request \<Rightarrow> user kv \<Rightarrow> response \<times> user kv" where
  "register bcrypt_hash salt uuid now timestamp random req users =
     (case body req of
        None \<Rightarrow> (errorResponse ''Internal server error'' 500, users)
      | Some b \<Rightarrow>
          if \<not> truthy (b ''username'') \<or> \<not> truthy (b ''password'')
          then (errorResponse ''Username and password are required'' 400, users)
          else
            (case (b ''username'', b ''password'') of
               (Some uname, Some password) \<Rightarrow>
                 if length password < 6
                 then (errorResponse ''Password must be at least 6 characters'' 400, users)
                 else
                   (case kv_get users uname of
                      Some existingUser \<Rightarrow> (errorResponse ''Username already exists'' 409, users)
                    | None \<Rightarrow>
                        let u = \<lparr>user_id = uuid, username = uname,
                                 passwordHash = bcrypt_hash password 12 salt,
                                 user_createdAt = now\<rparr>
                        in (jsonResponse
                              (authResponse (generateToken (user_id u) timestamp random) u) 201,
                            kv_put users uname u))
             | _ \<Rightarrow> (errorResponse ''Username and password are required'' 400, users)))"

section \<open>\<open>NotesController\<close>\<close>

record Note =
  note_id :: string
  userId :: string
  title :: string
  content :: string
  createdAt :: string
  updatedAt :: string

definition note_json :: "Note \<Rightarrow> json" where
  "note_json n =
     JObj [(''id'', JStr (note_id n)), (''userId'', JStr (userId n)),
           (''title'', JStr (title n)), (''content'', JStr (content n)),
           (''createdAt'', JStr (createdAt n)), (''updatedAt'', JStr (updatedAt n))]"

definition userNotesKey :: "string \<Rightarrow> string" where
  "userNotesKey uid = ''user:'' @ uid @ '':notes''"

definition noteKey :: "string \<Rightarrow> string \<Rightarrow> string" where
  "noteKey uid nid = ''user:'' @ uid @ '':notes:'' @ nid"

text \<open>
  \<open>getNotes\<close>. \<open>getTime s\<close> is \<open>new Date(s).getTime()\<close>. \<open>Array.prototype.sort\<close> is
  stable; the comparator \<open>getTime b - getTime a\<close> orders by decreasing time.
\<close>

definition listNotes :: "(string \<Rightarrow> int) \<Rightarrow> string \<Rightarrow> Note kv \<Rightarrow> Note list" where
  "listNotes getTime uid s =
     (let noteIds = kv_list s (userNotesKey uid);
          notes = List.map_filter (kv_get s) noteIds
      in sort_key (\<lambda>n. - getTime (updatedAt n)) notes)"

definition getNotes :: "(string \<Rightarrow> int) \<Rightarrow> request \<Rightarrow> Note kv \<Rightarrow> response \<times> Note kv" where
  "getNotes getTime req s =
     (case authenticateRequest req of
        None \<Rightarrow> (errorResponse ''Unauthorized'' 401, s)
      | Some uid \<Rightarrow>
          (jsonResponse (JObj [(''notes'', JArr (map note_json (listNotes getTime uid s)))]) 200,
           s))"

text \<open>
  \<open>createNote\<close>. \<open>uuid\<close> is \<open>crypto.randomUUID()\<close>; \<open>now1\<close> and \<open>now2\<close> are the two
  successive values of \<open>new Date().toISOString()\<close> in the object literal.
\<close>

definition createNote ::
  "string \<Rightarrow> string \<Rightarrow> string \<Rightarrow> request \<Rightarrow> Note kv \<Rightarrow> response \<times> Note kv" where
  "createNote uuid now1 now2 req s =
     (case authenticateRequest req of
        None \<Rightarrow> (errorResponse ''Unauthorized'' 401, s)
      | Some uid \<Rightarrow>
          (case body req of
             None \<Rightarrow> (errorResponse ''Internal server error'' 500, s)
           | Some b \<Rightarrow>
               if \<not> truthy (b ''title'') \<or> \<not> truthy (b ''content'')
               then (errorResponse ''Title and content are required'' 400, s)
               else
                 (case (b ''title'', b ''content'') of
                    (Some t, Some c) \<Rightarrow>
                      let n = \<lparr>note_id = uuid, userId = uid, title = t, content = c,
                               createdAt = now1, updatedAt = now2\<rparr>
                      in (jsonResponse (JObj [(''note'', note_json n)]) 201,
                          kv_put s (noteKey uid (note_id n)) n)
                  | _ \<Rightarrow> (errorResponse ''Title and content are required'' 400, s))))"

text \<open>\<open>url.pathname.split('/').pop()\<close>: the last piece, \<open>None\<close> for an empty array.\<close>

definition pop :: "'a list \<Rightarrow> 'a option" where
  "pop xs = (if xs = [] then None else Some (last xs))"

text \<open>
  \<open>updateNote\<close>. \<open>now\<close> is \<open>new Date().toISOString()\<close>; \<open>body.title ?? existingNote.title\<close>
  keeps the stored value when the property is \<open>undefined\<close>.
\<close>

definition updateNote :: "string \<Rightarrow> request \<Rightarrow> Note kv \<Rightarrow> response \<times> Note kv" where
  "updateNote now req s =
     (case authenticateRequest req of
        None \<Rightarrow> (errorResponse ''Unauthorized'' 401, s)
      | Some uid \<Rightarrow>
          if \<not> truthy (pop (split (CHR ''/'') (pathname req)))
          then (errorResponse ''Note ID is required'' 400, s)
          else
            (case pop (split (CHR ''/'') (pathname req)) of
               None \<Rightarrow> (errorResponse ''Note ID is required'' 400, s)
             | Some noteId \<Rightarrow>
                 (case body req of
                    None \<Rightarrow> (errorResponse ''Internal server error'' 500, s)
                  | Some b \<Rightarrow>
                      if \<not> truthy (b ''title'') \<and> \<not> truthy (b ''content'')
                      then (errorResponse ''At least title or content must be provided'' 400, s)
                      else
                        (case kv_get s (noteKey uid noteId) of
                           None \<Rightarrow> (errorResponse ''Note not found'' 404, s)
                         | Some existingNote \<Rightarrow>
                             let updatedNote = existingNote
                                   \<lparr>title := (case b ''title'' of
                                                Some t \<Rightarrow> t | None \<Rightarrow> title existingNote),
                                    content := (case b ''content'' of
                                                  Some c \<Rightarrow> c | None \<Rightarrow> content existingNote),
                                    updatedAt := now\<rparr>
                             in (jsonResponse (JObj [(''note'', note_json updatedNote)]) 200,
                                 kv_put s (noteKey uid noteId) updatedNote)))))"

definition deleteNote :: "request \<Rightarrow> Note kv \<Rightarrow> response \<times> Note kv" where
  "deleteNote req s =
     (case authenticateRequest req of
        None \<Rightarrow> (errorResponse ''Unauthorized'' 401, s)
      | Some uid \<Rightarrow>
          if \<not> truthy (pop (split (CHR ''/'') (pathname req)))
          then (errorResponse ''Note ID is required'' 400, s)
          else
            (case pop (split (CHR ''/'') (pathname req)) of
               None \<Rightarrow> (errorResponse ''Note ID is required'' 400, s)
             | Some noteId \<Rightarrow>
                 (case kv_get s (noteKey uid noteId) of
                    None \<Rightarrow> (errorResponse ''Note not found'' 404, s)
                  | Some existingNote \<Rightarrow>
                      (jsonResponse (JObj [(''message'', JStr ''Note deleted successfully'')]) 200,
                       kv_delete s (noteKey uid noteId)))))"

section \<open>Specification predicates\<close>

text \<open>
  The specification's Authenticate, in the specification's words, for comparison with
  \<open>authenticateRequest\<close>: the bearer token is resolved in a session store, a table from
  issued tokens to user identities, and the answer is \<open>null\<close> for a missing header, a
  malformed header and an unknown token.
\<close>

definition spec_authenticate :: "(string \<times> string) list \<Rightarrow> request \<Rightarrow> string option" where
  "spec_authenticate sessions req =
     (case authorization req of
        None \<Rightarrow> None
      | Some authHeader \<Rightarrow>
          if startsWith authHeader ''Bearer '' then map_of sessions (slice authHeader 7)
          else None)"

text \<open>
  The shape of the NOTES namespace that the controller maintains: every entry sits under
  the key built from its own owner and id, and the owner is an identity that
  \<open>authenticateRequest\<close> can return (non-empty, without a colon).
\<close>

definition entry_ok :: "string \<times> Note \<Rightarrow> bool" where
  "entry_ok e =
     (fst e = noteKey (userId (snd e)) (note_id (snd e))
      \<and> userId (snd e) \<noteq> [] \<and> CHR '':'' \<notin> set (userId (snd e)))"

definition store_ok :: "Note kv \<Rightarrow> bool" where
  "store_ok s = list_all entry_ok s"

text \<open>Note ids are drawn by \<open>crypto.randomUUID()\<close>: no two entries share one.\<close>

definition ids_unique :: "Note kv \<Rightarrow> bool" where
  "ids_unique s = distinct (map (\<lambda>e. note_id (snd e)) s)"

text \<open>
  The instant that a timestamp denotes, in milliseconds since the epoch, for a string in the
  format \<open>toISOString\<close> writes (\<open>YYYY-MM-DDTHH:mm:ss.sssZ\<close>); \<open>None\<close> for any other
  string. It is used to compare two stored timestamps.
\<close>

definition digit_val :: "char \<Rightarrow> nat option" where
  "digit_val c =
     (let n = (of_char c :: nat) in if 48 \<le> n \<and> n \<le> 57 then Some (n - 48) else None)"

fun number_of :: "nat \<Rightarrow> string \<Rightarrow> nat option" where
  "number_of acc [] = Some acc"
| "number_of acc (c # cs) =
     (case digit_val c of None \<Rightarrow> None | Some d \<Rightarrow> number_of (10 * acc + d) cs)"

text \<open>Days from 1970-01-01 to a date of the proleptic Gregorian calendar.\<close>

definition days_from_civil :: "int \<Rightarrow> int \<Rightarrow> int \<Rightarrow> int" where
  "days_from_civil y m d =
     (let y' = (if m \<le> 2 then y - 1 else y);
          era = y' div 400;
          yoe = y' - era * 400;
          doy = (153 * (if m > 2 then m - 3 else m + 9) + 2) div 5 + d - 1;
          doe = yoe * 365 + yoe div 4 - yoe div 100 + doy
      in era * 146097 + doe - 719468)"

definition iso_millis :: "string \<Rightarrow> int option" where
  "iso_millis s =
     (if length s = 24 \<and> s ! 4 = CHR ''-'' \<and> s ! 7 = CHR ''-'' \<and> s ! 10 = CHR ''T''
         \<and> s ! 13 = CHR '':'' \<and> s ! 16 = CHR '':'' \<and> s ! 19 = CHR ''.'' \<and> s ! 23 = CHR ''Z''
      then
        (case (number_of 0 (take 4 s), number_of 0 (take 2 (drop 5 s)),
               number_of 0 (take 2 (drop 8 s)), number_of 0 (take 2 (drop 11 s)),
               number_of 0 (take 2 (drop 14 s)), number_of 0 (take 2 (drop 17 s)),
               number_of 0 (take 3 (drop 20 s))) of
           (Some y, Some mo, Some d, Some h, Some mi, Some sec, Some ms) \<Rightarrow>
             Some ((((days_from_civil (int y) (int mo) (int d) * 24 + int h) * 60 + int mi) * 60
                     + int sec) * 1000 + int ms)
         | _ \<Rightarrow> None)
      else None)"

section \<open>Helper lemmas\<close>

lemma split_acc_nonempty: "split_acc sep acc s \<noteq> []"
  by (induction s arbitrary: acc) auto

lemma hd_split_acc: "hd (split_acc sep acc s) = rev acc @ takeWhile (\<lambda>c. c \<noteq> sep) s"
  by (induction s arbitrary: acc) auto

lemma split_first:
  "\<exists>rest. split sep s = takeWhile (\<lambda>c. c \<noteq> sep) s # rest"
proof -
  obtain p ps where ps: "split sep s = p # ps"
    using split_acc_nonempty [of sep "[]" s] by (cases "split sep s") (auto simp: split_def)
  have "hd (split sep s) = takeWhile (\<lambda>c. c \<noteq> sep) s"
    by (simp add: split_def hd_split_acc)
  with ps show ?thesis by simp
qed

subsection \<open>Base64 round trip\<close>

lemma index_of_nth: "distinct xs \<Longrightarrow> n < length xs \<Longrightarrow> index_of (xs ! n) xs = Some n"
proof (induction xs arbitrary: n)
  case Nil then show ?case by simp
next
  case (Cons x xs)
  show ?case
  proof (cases n)
    case 0 then show ?thesis by simp
  next
    case (Suc m)
    with Cons.prems have "m < length xs" "distinct xs" "xs ! m \<noteq> x" by auto
    with Cons.IH [of m] Suc show ?thesis by simp
  qed
qed

lemma b64_alphabet_length: "length b64_alphabet = 64"
  by (simp add: b64_alphabet_def)

lemma b64_alphabet_distinct: "distinct b64_alphabet"
  by (simp add: b64_alphabet_def)

lemma b64_index_char: "n < 64 \<Longrightarrow> b64_index (b64_char n) = Some n"
  by (simp add: b64_index_def b64_char_def index_of_nth b64_alphabet_distinct b64_alphabet_length)

lemma b64_alphabet_plain: "\<forall>c \<in> set b64_alphabet. c \<noteq> CHR ''='' \<and> \<not> is_ascii_whitespace c"
  by (simp add: b64_alphabet_def is_ascii_whitespace_def)

lemma b64_char_plain: "n < 64 \<Longrightarrow> b64_char n \<noteq> CHR ''='' \<and> \<not> is_ascii_whitespace (b64_char n)"
  using b64_alphabet_plain by (simp add: b64_char_def b64_alphabet_length)

lemma enc_groups_bound: "\<forall>b \<in> set bs. b < 256 \<Longrightarrow> \<forall>v \<in> set (enc_groups bs). v < 64"
  by (induction bs rule: enc_groups.induct) auto

lemma dec_enc_groups: "\<forall>b \<in> set bs. b < 256 \<Longrightarrow> dec_groups (enc_groups bs) = bs"
  by (induction bs rule: enc_groups.induct) auto

lemma length_enc_groups:
  "length (enc_groups bs) = 4 * (length bs div 3) + (if length bs mod 3 = 0 then 0 else length bs mod 3 + 1)"
  by (induction bs rule: enc_groups.induct) (auto simp: div_add_self1)

lemma those_map_Some: "those (map Some xs) = Some xs"
  by (induction xs) auto

lemma strip_padding_replicate:
  assumes "\<forall>c \<in> set cs. c \<noteq> CHR ''=''" and "k \<le> 2"
  shows "strip_padding (cs @ replicate k (CHR ''='')) = cs"
proof -
  have last_ok: "cs \<noteq> [] \<Longrightarrow> hd (rev cs) \<noteq> CHR ''=''"
    using assms(1) by (simp add: hd_rev)
  from assms(2) consider "k = 0" | "k = 1" | "k = 2" by linarith
  then show ?thesis
  proof cases
    case 1
    show ?thesis
    proof (cases "rev cs")
      case Nil then show ?thesis using 1 by (simp add: strip_padding_def)
    next
      case (Cons x r)
      with last_ok have "x \<noteq> CHR ''=''" by auto
      with Cons 1 show ?thesis by (cases r) (simp_all add: strip_padding_def)
    qed
  next
    case 2
    show ?thesis
    proof (cases "rev cs")
      case Nil then show ?thesis using 2 by (simp add: strip_padding_def)
    next
      case (Cons y r)
      with last_ok have "y \<noteq> CHR ''=''" by auto
      moreover from Cons have "cs = rev (y # r)" by (metis rev_rev_ident)
      ultimately show ?thesis using Cons 2 by (simp add: strip_padding_def)
    qed
  next
    case 3
    then have "rev (cs @ replicate k (CHR ''='')) = CHR ''='' # CHR ''='' # rev cs"
      by (simp add: numeral_2_eq_2)
    then show ?thesis by (simp add: strip_padding_def)
  qed
qed

lemma atob_btoa: "atob (btoa s) = Some s"
proof -
  define bs where "bs = (map of_char s :: nat list)"
  define g where "g = enc_groups bs"
  define cs where "cs = map b64_char g"
  define k where "k = (3 - length s mod 3) mod 3"
  have bs256: "\<forall>b \<in> set bs. b < 256" by (auto simp: bs_def)
  then have g64: "\<forall>v \<in> set g. v < 64" unfolding g_def by (rule enc_groups_bound)
  have enc: "btoa s = cs @ replicate k (CHR ''='')"
    by (simp add: btoa_def cs_def g_def bs_def k_def)
  have plain: "\<forall>c \<in> set cs. c \<noteq> CHR ''='' \<and> \<not> is_ascii_whitespace c"
    using g64 b64_char_plain by (auto simp: cs_def)
  have eq_ws: "\<not> is_ascii_whitespace (CHR ''='')" by (simp add: is_ascii_whitespace_def)
  have f: "filter (\<lambda>c. \<not> is_ascii_whitespace c) (btoa s) = btoa s"
    unfolding enc using plain eq_ws by (auto simp: filter_id_conv)
  have k2: "k \<le> 2" unfolding k_def by arith
  have lcs: "length cs = 4 * (length s div 3) + (if length s mod 3 = 0 then 0 else length s mod 3 + 1)"
    by (simp add: cs_def g_def length_enc_groups bs_def)
  have cases3: "length s mod 3 = 0 \<or> length s mod 3 = 1 \<or> length s mod 3 = 2" by linarith
  have lmod: "length cs mod 4 = (if length s mod 3 = 0 then 0 else length s mod 3 + 1)"
    using cases3 by (auto simp: lcs)
  have len4: "length (btoa s) mod 4 = 0"
  proof -
    have "length (btoa s) mod 4 = (length cs mod 4 + k) mod 4"
      by (simp add: enc mod_add_left_eq)
    then show ?thesis using cases3 by (auto simp: lmod k_def)
  qed
  have len1: "length cs mod 4 \<noteq> 1"
    using cases3 by (auto simp: lmod)
  have strip: "strip_padding (btoa s) = cs"
    unfolding enc using plain k2 by (intro strip_padding_replicate) auto
  have idx: "map b64_index cs = map Some g"
    using g64 by (auto simp: cs_def b64_index_char)
  have dec: "map char_of (dec_groups g) = s"
    using dec_enc_groups [OF bs256] by (simp add: g_def bs_def comp_def)
  show ?thesis
    using f len4 len1 strip idx dec by (simp add: atob_def those_map_Some)
qed

subsection \<open>Authentication\<close>

lemma takeWhile_upto_sep: "c \<notin> set u \<Longrightarrow> takeWhile (\<lambda>x. x \<noteq> c) (u @ c # r) = u"
  by (induction u) auto

lemma auth_result:
  assumes "authorization req = Some h" "startsWith h ''Bearer ''" "atob (slice h 7) = Some d"
  shows "authenticateRequest req =
           (if takeWhile (\<lambda>c. c \<noteq> CHR '':'') d = [] then None
            else Some (takeWhile (\<lambda>c. c \<noteq> CHR '':'') d))"
proof -
  obtain rest where "split (CHR '':'') d = takeWhile (\<lambda>c. c \<noteq> CHR '':'') d # rest"
    using split_first by blast
  moreover have "h \<noteq> []" using assms(2) by (auto simp: startsWith_def)
  ultimately show ?thesis using assms by (simp add: authenticateRequest_def)
qed

lemma auth_Some_shape:
  assumes "authenticateRequest req = Some u"
  shows "u \<noteq> [] \<and> CHR '':'' \<notin> set u"
proof -
  from assms obtain h where h: "authorization req = Some h"
    by (auto simp: authenticateRequest_def split: option.splits)
  with assms have sw: "startsWith h ''Bearer ''"
    by (auto simp: authenticateRequest_def split: if_splits)
  with assms h obtain d where d: "atob (slice h 7) = Some d"
    by (auto simp: authenticateRequest_def Let_def split: option.splits if_splits)
  from auth_result [OF h sw d] assms
  have "u = takeWhile (\<lambda>c. c \<noteq> CHR '':'') d" "u \<noteq> []" by (auto split: if_splits)
  moreover have "CHR '':'' \<notin> set (takeWhile (\<lambda>c. c \<noteq> CHR '':'') d)"
    by (auto dest: set_takeWhileD)
  ultimately show ?thesis by simp
qed

lemma auth_None_401:
  assumes "authenticateRequest req = None"
  shows "getNotes getTime req s = (errorResponse ''Unauthorized'' 401, s)"
    and "createNote uuid now1 now2 req s = (errorResponse ''Unauthorized'' 401, s)"
    and "updateNote now req s = (errorResponse ''Unauthorized'' 401, s)"
    and "deleteNote req s = (errorResponse ''Unauthorized'' 401, s)"
  using assms by (simp_all add: getNotes_def createNote_def updateNote_def deleteNote_def)

lemma atob_mallory: "atob ''bWFsbG9yeTo='' = Some ''mallory:''"
  by code_simp

subsection \<open>Path matching\<close>

lemma nth_opt_nth: "i < length xs \<Longrightarrow> nth_opt xs i = Some (xs ! i)"
  by (induction xs i rule: nth_opt.induct) auto

lemma startsWith_colon: "startsWith seg '':'' \<longleftrightarrow> (\<exists>rest. seg = CHR '':'' # rest)"
  by (cases seg) (auto simp: startsWith_def)

lemma matchLoop_iff:
  "matchLoop routeParts requestParts i \<longleftrightarrow>
     (\<forall>j. i \<le> j \<and> j < length routeParts \<longrightarrow>
          startsWith (routeParts ! j) '':'' \<or> nth_opt requestParts j = Some (routeParts ! j))"
proof (induction routeParts requestParts i rule: matchLoop.induct)
  case (1 routeParts requestParts i)
  show ?case
  proof (cases "i < length routeParts")
    case False
    then show ?thesis by (subst matchLoop.simps) auto
  next
    case True
    show ?thesis
    proof (cases "startsWith (routeParts ! i) '':''
                   \<or> nth_opt requestParts i = Some (routeParts ! i)")
      case False
      with True show ?thesis by (subst matchLoop.simps) auto
    next
      case ok: True
      have "matchLoop routeParts requestParts i = matchLoop routeParts requestParts (i + 1)"
        using True ok by (subst matchLoop.simps) simp
      also have "\<dots> \<longleftrightarrow> (\<forall>j. i + 1 \<le> j \<and> j < length routeParts \<longrightarrow>
          startsWith (routeParts ! j) '':'' \<or> nth_opt requestParts j = Some (routeParts ! j))"
        using "1.IH" [OF True ok] .
      also have "\<dots> \<longleftrightarrow> (\<forall>j. i \<le> j \<and> j < length routeParts \<longrightarrow>
          startsWith (routeParts ! j) '':'' \<or> nth_opt requestParts j = Some (routeParts ! j))"
      proof (intro iffI allI impI)
        fix j
        assume h: "\<forall>j. i + 1 \<le> j \<and> j < length routeParts \<longrightarrow>
          startsWith (routeParts ! j) '':'' \<or> nth_opt requestParts j = Some (routeParts ! j)"
          and j: "i \<le> j \<and> j < length routeParts"
        show "startsWith (routeParts ! j) '':'' \<or> nth_opt requestParts j = Some (routeParts ! j)"
        proof (cases "j = i")
          case True with ok show ?thesis by simp
        next
          case False with j have "i + 1 \<le> j \<and> j < length routeParts" by simp
          with h show ?thesis by blast
        qed
      next
        fix j
        assume h: "\<forall>j. i \<le> j \<and> j < length routeParts \<longrightarrow>
          startsWith (routeParts ! j) '':'' \<or> nth_opt requestParts j = Some (routeParts ! j)"
          and j: "i + 1 \<le> j \<and> j < length routeParts"
        then show "startsWith (routeParts ! j) '':'' \<or> nth_opt requestParts j = Some (routeParts ! j)"
          by simp
      qed
      finally show ?thesis .
    qed
  qed
qed

lemma matchPath_iff:
  "matchPath p r \<longleftrightarrow>
     (let ps = filterBoolean (split (CHR ''/'') p); rs = filterBoolean (split (CHR ''/'') r)
      in length ps = length rs
         \<and> (\<forall>i<length ps. (\<exists>rest. ps ! i = CHR '':'' # rest) \<or> ps ! i = rs ! i))"
proof -
  define ps where "ps = filterBoolean (split (CHR ''/'') p)"
  define rs where "rs = filterBoolean (split (CHR ''/'') r)"
  have "matchPath p r \<longleftrightarrow> length ps = length rs \<and> matchLoop ps rs 0"
    by (auto simp: matchPath_def Let_def ps_def rs_def)
  also have "\<dots> \<longleftrightarrow> length ps = length rs
         \<and> (\<forall>i<length ps. (\<exists>rest. ps ! i = CHR '':'' # rest) \<or> ps ! i = rs ! i)"
    by (auto simp: matchLoop_iff startsWith_colon nth_opt_nth)
  finally show ?thesis by (simp add: Let_def ps_def rs_def)
qed

lemma parts_pattern: "filterBoolean (split (CHR ''/'') ''/api/notes/:id'') = [''api'', ''notes'', '':id'']" by code_simp
lemma parts_request: "filterBoolean (split (CHR ''/'') ''/api/notes/abc'') = [''api'', ''notes'', ''abc'']" by code_simp

lemma getPathParams_example: "getPathParams ''/api/notes/:id'' ''/api/notes/abc'' = [''id'' \<mapsto> Some ''abc'']"
  unfolding getPathParams_def parts_pattern parts_request Let_def
  by (simp add: paramsLoop.simps [of _ _ 0] paramsLoop.simps [of _ _ "Suc 0"]
       paramsLoop.simps [of _ _ "Suc (Suc 0)"] paramsLoop.simps [of _ _ "Suc (Suc (Suc 0))"] startsWith_def slice_def)

subsection \<open>The key-value namespaces\<close>

lemma kv_get_put: "kv_get (kv_put s k v) k' = (if k' = k then Some v else kv_get s k')"
  by (simp add: kv_get_def kv_put_def update_conv')

lemma kv_get_delete: "kv_get (kv_delete s k) k' = (if k' = k then None else kv_get s k')"
  by (simp add: kv_get_def kv_delete_def delete_conv')

subsection \<open>The notes namespace: keys, ownership, invariants\<close>

lemma update_fresh: "k \<notin> fst ` set s \<Longrightarrow> AList.update k v s = s @ [(k, v)]"
  by (induction s) auto

lemma list_all_update:
  "P (k, v) \<Longrightarrow> list_all P s \<Longrightarrow> list_all P (AList.update k v s)"
  by (induction s) auto

lemma list_all_delete: "list_all P s \<Longrightarrow> list_all P (AList.delete k s)"
  by (induction s) (auto simp: AList.delete_eq)

lemma startsWith_append: "startsWith (p @ r) p"
  by (simp add: startsWith_def)

lemma startsWith_split: "startsWith k p \<Longrightarrow> \<exists>r. k = p @ r"
  by (metis startsWith_def append_take_drop_id)

lemma noteKey_prefix: "startsWith (noteKey uid nid) (userNotesKey uid)"
  using startsWith_append [of "userNotesKey uid" "'':'' @ nid"]
  by (simp add: noteKey_def userNotesKey_def)

lemma key_owner:
  assumes "startsWith (noteKey u' n) (userNotesKey u)"
    and "CHR '':'' \<notin> set u" and "CHR '':'' \<notin> set u'"
  shows "u' = u"
proof -
  from startsWith_split [OF assms(1)] obtain r where "noteKey u' n = userNotesKey u @ r" ..
  then have "u' @ CHR '':'' # (''notes:'' @ n) = u @ CHR '':'' # (''notes'' @ r)"
    by (simp add: noteKey_def userNotesKey_def)
  then have "takeWhile (\<lambda>x. x \<noteq> CHR '':'') (u' @ CHR '':'' # (''notes:'' @ n))
           = takeWhile (\<lambda>x. x \<noteq> CHR '':'') (u @ CHR '':'' # (''notes'' @ r))"
    by (rule arg_cong)
  then show ?thesis
    unfolding takeWhile_upto_sep [OF assms(2)] takeWhile_upto_sep [OF assms(3)] .
qed

lemma noteKey_inj:
  assumes "noteKey u n = noteKey u' n'" and "CHR '':'' \<notin> set u" and "CHR '':'' \<notin> set u'"
  shows "u = u' \<and> n = n'"
proof -
  have "startsWith (noteKey u n) (userNotesKey u')"
    using noteKey_prefix [of u' n'] assms(1) by simp
  then have "u = u'" using key_owner assms(2,3) by blast
  with assms(1) show ?thesis by (simp add: noteKey_def)
qed

lemma store_ok_entry: "store_ok s \<Longrightarrow> kv_get s k = Some x \<Longrightarrow> entry_ok (k, x)"
  by (auto simp: store_ok_def kv_get_def list_all_iff dest: map_of_SomeD)

lemma set_map_filter_opt: "set (List.map_filter f xs) = {y. \<exists>x \<in> set xs. f x = Some y}"
  by (induction xs) (auto split: option.splits)

lemma set_listNotes:
  "set (listNotes getTime u s) =
     {y. \<exists>k \<in> fst ` set s. startsWith k (userNotesKey u) \<and> kv_get s k = Some y}"
  by (auto simp: listNotes_def kv_list_def Let_def set_map_filter_opt)

lemma listNotes_owner:
  assumes "store_ok s" and "CHR '':'' \<notin> set u" and "y \<in> set (listNotes getTime u s)"
  shows "userId y = u"
proof -
  from assms(3) obtain k where k: "startsWith k (userNotesKey u)" "kv_get s k = Some y"
    by (auto simp: set_listNotes)
  from store_ok_entry [OF assms(1) k(2)]
  have e: "k = noteKey (userId y) (note_id y)" "CHR '':'' \<notin> set (userId y)"
    by (simp_all add: entry_ok_def)
  with k(1) key_owner [of "userId y" "note_id y" u] assms(2) show ?thesis by simp
qed

lemma foreign_key_vacant:
  assumes ok: "store_ok s" and uniq: "ids_unique s"
    and x: "kv_get s k = Some x" and other: "userId x \<noteq> u" and u: "CHR '':'' \<notin> set u"
  shows "kv_get s (noteKey u (note_id x)) = None"
proof (rule ccontr)
  assume "kv_get s (noteKey u (note_id x)) \<noteq> None"
  then obtain y where y: "kv_get s (noteKey u (note_id x)) = Some y" by auto
  from store_ok_entry [OF ok y]
  have ey: "noteKey u (note_id x) = noteKey (userId y) (note_id y)" "CHR '':'' \<notin> set (userId y)"
    by (simp_all add: entry_ok_def)
  from noteKey_inj [OF ey(1) u ey(2)] have uy: "userId y = u" "note_id y = note_id x" by simp_all
  have mx: "(k, x) \<in> set s" using x by (auto simp: kv_get_def dest: map_of_SomeD)
  have my: "(noteKey u (note_id x), y) \<in> set s" using y by (auto simp: kv_get_def dest: map_of_SomeD)
  have "inj_on (\<lambda>e. note_id (snd e)) (set s)"
    using uniq by (simp add: ids_unique_def distinct_map)
  from inj_onD [OF this _ mx my] uy have "(k, x) = (noteKey u (note_id x), y)" by simp
  with uy other show False by simp
qed

lemma foreign_key_distinct:
  assumes ok: "store_ok s" and x: "kv_get s k = Some x" and other: "userId x \<noteq> u"
    and u: "CHR '':'' \<notin> set u"
  shows "k \<noteq> noteKey u nid"
proof
  assume "k = noteKey u nid"
  moreover from store_ok_entry [OF ok x]
  have "k = noteKey (userId x) (note_id x)" "CHR '':'' \<notin> set (userId x)"
    by (simp_all add: entry_ok_def)
  ultimately have "userId x = u" using noteKey_inj [of "userId x" "note_id x" u nid] u by simp
  with other show False by simp
qed


lemma op_keeps_foreign:
  assumes ok: "store_ok s" and x: "kv_get s k = Some x" and other: "userId x \<noteq> u"
    and auth: "authenticateRequest r = Some u"
  shows "kv_get (snd (createNote uuid now1 now2 r s)) k = Some x"
    and "kv_get (snd (updateNote now r s)) k = Some x"
    and "kv_get (snd (deleteNote r s)) k = Some x"
    and "snd (getNotes getTime r s) = s"
proof -
  have u: "CHR '':'' \<notin> set u" using auth_Some_shape [OF auth] by simp
  have ne: "\<And>nid. k \<noteq> noteKey u nid" using foreign_key_distinct [OF ok x other u] .
  show "kv_get (snd (createNote uuid now1 now2 r s)) k = Some x"
    using auth x ne
    by (auto simp: createNote_def Let_def kv_get_put split: option.splits)
  show "kv_get (snd (updateNote now r s)) k = Some x"
    using auth x ne
    by (auto simp: updateNote_def Let_def kv_get_put split: option.splits)
  show "kv_get (snd (deleteNote r s)) k = Some x"
    using auth x ne
    by (auto simp: deleteNote_def kv_get_delete split: option.splits)
  show "snd (getNotes getTime r s) = s"
    using auth by (simp add: getNotes_def)
qed

lemma createNote_then_listNotes:
  assumes auth: "authenticateRequest req = Some u"
    and bd: "body req = Some b" "b ''title'' = Some t" "b ''content'' = Some c"
    and ne: "t \<noteq> []" "c \<noteq> []"
    and none: "kv_list s (userNotesKey u) = []"
  shows "fst (createNote uuid now1 now2 req s) =
           jsonResponse (JObj [(''note'', note_json
             \<lparr>note_id = uuid, userId = u, title = t, content = c,
              createdAt = now1, updatedAt = now2\<rparr>)]) 201"
    and "listNotes getTime u (snd (createNote uuid now1 now2 req s)) =
          [\<lparr>note_id = uuid, userId = u, title = t, content = c,
            createdAt = now1, updatedAt = now2\<rparr>]"
proof -
  let ?n = "\<lparr>note_id = uuid, userId = u, title = t, content = c,
            createdAt = now1, updatedAt = now2\<rparr>"
  let ?k = "noteKey u uuid"
  have r: "createNote uuid now1 now2 req s =
             (jsonResponse (JObj [(''note'', note_json ?n)]) 201, kv_put s ?k ?n)"
    using auth bd ne by (simp add: createNote_def Let_def)
  show "fst (createNote uuid now1 now2 req s) = jsonResponse (JObj [(''note'', note_json ?n)]) 201"
    by (simp add: r)
  have fresh: "?k \<notin> fst ` set s"
  proof
    assume "?k \<in> fst ` set s"
    then have "?k \<in> set (kv_list s (userNotesKey u))"
      using noteKey_prefix [of u uuid] by (auto simp: kv_list_def)
    with none show False by simp
  qed
  have put: "kv_put s ?k ?n = s @ [(?k, ?n)]"
    by (simp add: kv_put_def update_fresh [OF fresh])
  have "kv_list (kv_put s ?k ?n) (userNotesKey u) = [?k]"
    using none noteKey_prefix [of u uuid] by (simp add: put kv_list_def)
  moreover have "kv_get (kv_put s ?k ?n) ?k = Some ?n" by (simp add: kv_get_put)
  ultimately show "listNotes getTime u (snd (createNote uuid now1 now2 req s)) = [?n]"
    by (simp add: r listNotes_def Let_def)
qed

lemma store_ok_createNote:
  "store_ok s \<Longrightarrow> store_ok (snd (createNote uuid now1 now2 req s))"
proof -
  assume ok: "store_ok s"
  show ?thesis
  proof (cases "authenticateRequest req")
    case None then show ?thesis using ok by (simp add: createNote_def)
  next
    case (Some u)
    from auth_Some_shape [OF Some] have "u \<noteq> []" "CHR '':'' \<notin> set u" by simp_all
    then show ?thesis using ok Some
      by (auto simp: createNote_def Let_def store_ok_def kv_put_def entry_ok_def
               intro!: list_all_update split: option.splits)
  qed
qed

lemma store_ok_updateNote: "store_ok s \<Longrightarrow> store_ok (snd (updateNote now req s))"
proof -
  assume ok: "store_ok s"
  have "\<And>k old (upd::Note). kv_get s k = Some old \<Longrightarrow> note_id upd = note_id old
           \<Longrightarrow> userId upd = userId old \<Longrightarrow> store_ok (kv_put s k upd)"
  proof -
    fix k old and upd :: Note
    assume a: "kv_get s k = Some old" "note_id upd = note_id old" "userId upd = userId old"
    from store_ok_entry [OF ok a(1)] a(2,3) have "entry_ok (k, upd)" by (simp add: entry_ok_def)
    then show "store_ok (kv_put s k upd)"
      using ok by (simp add: store_ok_def kv_put_def list_all_update)
  qed
  then show ?thesis using ok
    by (auto simp: updateNote_def Let_def split: option.splits)
qed

lemma store_ok_deleteNote: "store_ok s \<Longrightarrow> store_ok (snd (deleteNote req s))"
  by (auto simp: deleteNote_def store_ok_def kv_delete_def list_all_delete split: option.splits)

lemma ids_update_same:
  "map_of s k = Some old \<Longrightarrow> f v = f old
     \<Longrightarrow> map (\<lambda>e. f (snd e)) (AList.update k v s) = map (\<lambda>e. f (snd e)) s"
  by (induction s) auto

lemma ids_unique_updateNote: "ids_unique s \<Longrightarrow> ids_unique (snd (updateNote now req s))"
  by (auto simp: updateNote_def Let_def ids_unique_def kv_put_def kv_get_def ids_update_same
           split: option.splits)

lemma ids_unique_deleteNote: "ids_unique s \<Longrightarrow> ids_unique (snd (deleteNote req s))"
  by (auto simp: deleteNote_def ids_unique_def kv_delete_def AList.delete_eq distinct_map_filter
           split: option.splits)

lemma ids_unique_createNote:
  assumes ok: "store_ok s" and uniq: "ids_unique s"
    and fresh: "uuid \<notin> (\<lambda>e. note_id (snd e)) ` set s"
  shows "ids_unique (snd (createNote uuid now1 now2 req s))"
proof (cases "authenticateRequest req")
  case None then show ?thesis using uniq by (simp add: createNote_def)
next
  case (Some u)
  from auth_Some_shape [OF Some] have u: "CHR '':'' \<notin> set u" by simp
  have absent: "noteKey u uuid \<notin> fst ` set s"
  proof
    assume "noteKey u uuid \<in> fst ` set s"
    then obtain y where y: "(noteKey u uuid, y) \<in> set s" by auto
    with ok have "entry_ok (noteKey u uuid, y)" by (auto simp: store_ok_def list_all_iff)
    then have "noteKey u uuid = noteKey (userId y) (note_id y)" "CHR '':'' \<notin> set (userId y)"
      by (simp_all add: entry_ok_def)
    from noteKey_inj [OF this(1) u this(2)] have "note_id y = uuid" by simp
    with y fresh show False by force
  qed
  show ?thesis
    using Some uniq fresh
    by (auto simp: createNote_def Let_def ids_unique_def kv_put_def update_fresh [OF absent]
             split: option.splits)
qed

lemma atob_alice: "atob ''YWxpY2U6MTpy'' = Some ''alice:1:r''"
  by code_simp

lemma split_alice: "split (CHR '':'') ''alice:1:r'' = [''alice'', ''1'', ''r'']"
  by code_simp

lemma auth_alice:
  "authorization req = Some ''Bearer YWxpY2U6MTpy'' \<Longrightarrow> authenticateRequest req = Some ''alice''"
  by (simp add: authenticateRequest_def startsWith_def slice_def atob_alice split_alice)

lemma pop_n1: "pop (split (CHR ''/'') ''/api/notes/n1'') = Some ''n1''"
  by code_simp

section \<open>Claims\<close>

subsection \<open>C1: what \<open>authenticateRequest\<close> returns\<close>

text \<open>
  C1, as stated, has \<open>authenticateRequest\<close> resolve the token in a session store and
  return \<open>null\<close> for an unknown token. The controller keeps no session store and decodes
  the token instead: with an empty store, where every token is unknown, the
  specification's Authenticate rejects the token \<open>bWFsbG9yeTo=\<close>, and the controller
  accepts it as user \<open>mallory\<close>.
\<close>

theorem authenticate_unknown_token_counterexample:
  "authenticateRequest
     \<lparr>req_method = ''GET'', pathname = ''/api/notes'',
      authorization = Some ''Bearer bWFsbG9yeTo='', body = None\<rparr> = Some ''mallory''
   \<and> spec_authenticate []
     \<lparr>req_method = ''GET'', pathname = ''/api/notes'',
      authorization = Some ''Bearer bWFsbG9yeTo='', body = None\<rparr> = None"
  by code_simp

text \<open>
  C1, amended: \<open>authenticateRequest\<close> never throws (it is a total function into
  \<open>string option\<close>). It returns \<open>null\<close> when the Authorization header is missing, when
  it does not start with \<open>Bearer \<close>, when the token is not valid base64, and when the
  decoded text has nothing before its first colon; otherwise it returns the decoded text
  up to the first colon, without any lookup. Every notes handler answers 401 and leaves
  the store alone when it returns \<open>null\<close>.
\<close>

theorem authenticateRequest_decodes_token:
  "(authorization req = None \<longrightarrow> authenticateRequest req = None)
   \<and> (\<forall>h. authorization req = Some h \<and> \<not> startsWith h ''Bearer ''
          \<longrightarrow> authenticateRequest req = None)
   \<and> (\<forall>h. authorization req = Some h \<and> startsWith h ''Bearer '' \<and> atob (slice h 7) = None
          \<longrightarrow> authenticateRequest req = None)
   \<and> (\<forall>h d. authorization req = Some h \<and> startsWith h ''Bearer '' \<and> atob (slice h 7) = Some d
          \<longrightarrow> authenticateRequest req =
                (if takeWhile (\<lambda>c. c \<noteq> CHR '':'') d = [] then None
                 else Some (takeWhile (\<lambda>c. c \<noteq> CHR '':'') d)))
   \<and> (authenticateRequest req = None \<longrightarrow>
          getNotes getTime req s = (errorResponse ''Unauthorized'' 401, s)
          \<and> createNote uuid now1 now2 req s = (errorResponse ''Unauthorized'' 401, s)
          \<and> updateNote now req s = (errorResponse ''Unauthorized'' 401, s)
          \<and> deleteNote req s = (errorResponse ''Unauthorized'' 401, s)
          \<and> status (errorResponse ''Unauthorized'' 401) = 401)"
proof (intro conjI allI impI)
  assume "authorization req = None"
  then show "authenticateRequest req = None" by (simp add: authenticateRequest_def)
next
  fix h assume "authorization req = Some h \<and> \<not> startsWith h ''Bearer ''"
  then show "authenticateRequest req = None" by (simp add: authenticateRequest_def)
next
  fix h assume "authorization req = Some h \<and> startsWith h ''Bearer '' \<and> atob (slice h 7) = None"
  then show "authenticateRequest req = None" by (simp add: authenticateRequest_def)
next
  fix h d
  assume "authorization req = Some h \<and> startsWith h ''Bearer '' \<and> atob (slice h 7) = Some d"
  then show "authenticateRequest req =
                (if takeWhile (\<lambda>c. c \<noteq> CHR '':'') d = [] then None
                 else Some (takeWhile (\<lambda>c. c \<noteq> CHR '':'') d))"
    using auth_result by blast
next
  assume n: "authenticateRequest req = None"
  show "getNotes getTime req s = (errorResponse ''Unauthorized'' 401, s)"
    by (rule auth_None_401 [OF n])
  show "createNote uuid now1 now2 req s = (errorResponse ''Unauthorized'' 401, s)"
    by (rule auth_None_401 [OF n])
  show "updateNote now req s = (errorResponse ''Unauthorized'' 401, s)"
    by (rule auth_None_401 [OF n])
  show "deleteNote req s = (errorResponse ''Unauthorized'' 401, s)"
    by (rule auth_None_401 [OF n])
  show "status (errorResponse ''Unauthorized'' 401) = 401"
    by (simp add: errorResponse_def jsonResponse_def)
qed

theorem authenticateRequest_decodes_token_witness:
  "authenticateRequest
     \<lparr>req_method = ''GET'', pathname = ''/api/notes'', authorization = None, body = None\<rparr> = None
   \<and> authenticateRequest
     \<lparr>req_method = ''GET'', pathname = ''/api/notes'',
      authorization = Some ''Basic bWFsbG9yeTo='', body = None\<rparr> = None
   \<and> authenticateRequest
     \<lparr>req_method = ''GET'', pathname = ''/api/notes'',
      authorization = Some ''Bearer !'', body = None\<rparr> = None
   \<and> authenticateRequest
     \<lparr>req_method = ''GET'', pathname = ''/api/notes'',
      authorization = Some ''Bearer bWFsbG9yeTo='', body = None\<rparr> = Some ''mallory''
   \<and> fst (deleteNote
       \<lparr>req_method = ''DELETE'', pathname = ''/api/notes/n1'', authorization = None, body = None\<rparr>
       []) = errorResponse ''Unauthorized'' 401"
proof -
  let ?r0 = "\<lparr>req_method = ''GET'', pathname = ''/api/notes'', authorization = None, body = None\<rparr>"
  let ?r1 = "\<lparr>req_method = ''GET'', pathname = ''/api/notes'',
      authorization = Some ''Basic bWFsbG9yeTo='', body = None\<rparr>"
  let ?r2 = "\<lparr>req_method = ''GET'', pathname = ''/api/notes'',
      authorization = Some ''Bearer !'', body = None\<rparr>"
  let ?r3 = "\<lparr>req_method = ''GET'', pathname = ''/api/notes'',
      authorization = Some ''Bearer bWFsbG9yeTo='', body = None\<rparr>"
  let ?r4 = "\<lparr>req_method = ''DELETE'', pathname = ''/api/notes/n1'', authorization = None,
      body = None\<rparr>"
  have bad: "atob ''!'' = None" by code_simp
  have good: "atob ''bWFsbG9yeTo='' = Some ''mallory:''" by code_simp
  have c0: "authenticateRequest ?r0 = None"
    using authenticateRequest_decodes_token [of ?r0] by simp
  have c1: "authenticateRequest ?r1 = None"
    using authenticateRequest_decodes_token [of ?r1] by (simp add: startsWith_def)
  have c2: "authenticateRequest ?r2 = None"
    using authenticateRequest_decodes_token [of ?r2] bad by (simp add: startsWith_def slice_def)
  have c3: "authenticateRequest ?r3 = Some ''mallory''"
    using authenticateRequest_decodes_token [of ?r3] good by (simp add: startsWith_def slice_def)
  have c4: "fst (deleteNote ?r4 []) = errorResponse ''Unauthorized'' 401"
    using authenticateRequest_decodes_token [of ?r4 _ "[]"] by simp
  from c0 c1 c2 c3 c4 show ?thesis by simp
qed

subsection \<open>C2: issued tokens decode to the user id, and so do forged ones\<close>

text \<open>
  C2: for a user id \<open>u\<close> (non-empty and without a colon, as every UUID is), the token of
  \<open>generateToken u\<close> is the base64 encoding of a text that begins with \<open>u:\<close>, and
  \<open>authenticateRequest\<close> on \<open>Bearer <token>\<close> returns \<open>u\<close>; it takes the request only,
  no token table. Any base64 text whose decoding has a non-empty part before the first
  colon authenticates as that part.
\<close>

theorem token_roundtrip_forgeable:
  "(u \<noteq> [] \<and> CHR '':'' \<notin> set u \<longrightarrow>
      (\<exists>d. generateToken u ts rnd = btoa d \<and> take (length u + 1) d = u @ '':'')
      \<and> authenticateRequest (req\<lparr>authorization := Some (''Bearer '' @ generateToken u ts rnd)\<rparr>)
          = Some u)
   \<and> (atob t = Some d \<and> takeWhile (\<lambda>c. c \<noteq> CHR '':'') d \<noteq> [] \<longrightarrow>
      authenticateRequest (req\<lparr>authorization := Some (''Bearer '' @ t)\<rparr>)
          = Some (takeWhile (\<lambda>c. c \<noteq> CHR '':'') d))"
proof (intro conjI impI)
  assume "u \<noteq> [] \<and> CHR '':'' \<notin> set u"
  have "generateToken u ts rnd = btoa (u @ '':'' @ ts @ '':'' @ rnd)"
    by (simp add: generateToken_def)
  moreover have "take (length u + 1) (u @ '':'' @ ts @ '':'' @ rnd) = u @ '':''"
    by simp
  ultimately show "\<exists>d. generateToken u ts rnd = btoa d \<and> take (length u + 1) d = u @ '':''"
    by blast
next
  assume u: "u \<noteq> [] \<and> CHR '':'' \<notin> set u"
  let ?tok = "generateToken u ts rnd"
  let ?req = "req\<lparr>authorization := Some (''Bearer '' @ ?tok)\<rparr>"
  let ?d = "u @ '':'' @ ts @ '':'' @ rnd"
  have tw: "takeWhile (\<lambda>c. c \<noteq> CHR '':'') ?d = u"
    using u takeWhile_upto_sep [of "CHR '':''" u "ts @ '':'' @ rnd"] by simp
  have h: "authorization ?req = Some (''Bearer '' @ ?tok)" by simp
  have sw: "startsWith (''Bearer '' @ ?tok) ''Bearer ''" by (simp add: startsWith_def)
  have dec: "atob (slice (''Bearer '' @ ?tok) 7) = Some ?d"
    by (simp add: slice_def generateToken_def atob_btoa)
  show "authenticateRequest ?req = Some u"
    unfolding auth_result [OF h sw dec] tw using u by simp
next
  assume a: "atob t = Some d \<and> takeWhile (\<lambda>c. c \<noteq> CHR '':'') d \<noteq> []"
  let ?req = "req\<lparr>authorization := Some (''Bearer '' @ t)\<rparr>"
  have h: "authorization ?req = Some (''Bearer '' @ t)" by simp
  have sw: "startsWith (''Bearer '' @ t) ''Bearer ''" by (simp add: startsWith_def)
  have dec: "atob (slice (''Bearer '' @ t) 7) = Some d"
    using a by (simp add: slice_def)
  show "authenticateRequest ?req = Some (takeWhile (\<lambda>c. c \<noteq> CHR '':'') d)"
    unfolding auth_result [OF h sw dec] using a by simp
qed

theorem token_roundtrip_forgeable_witness:
  "authenticateRequest
     \<lparr>req_method = ''GET'', pathname = ''/api/notes'',
      authorization = Some (''Bearer '' @ generateToken ''u1'' ''5'' ''r''), body = None\<rparr>
     = Some ''u1''
   \<and> authenticateRequest
     \<lparr>req_method = ''GET'', pathname = ''/api/notes'',
      authorization = Some ''Bearer bWFsbG9yeTo='', body = None\<rparr>
     = Some ''mallory''"
  using token_roundtrip_forgeable
          [of "''u1''" "''5''" "''r''"
              "\<lparr>req_method = ''GET'', pathname = ''/api/notes'', authorization = None, body = None\<rparr>"
              "''bWFsbG9yeTo=''" "''mallory:''"]
        atob_mallory
  by simp

subsection \<open>C4: segment-wise path matching\<close>

text \<open>
  C4: a pattern matches a path exactly when, after both are split on \<open>/\<close> and the empty
  pieces dropped, the two lists have the same length and at every position the pattern's
  piece begins with \<open>:\<close> or equals the path's piece. \<open>/api/notes/:id\<close> matches
  \<open>/api/notes/abc\<close> with parameters \<open>{id: "abc"}\<close>, and matches neither \<open>/api/notes\<close>
  nor \<open>/api/notes/abc/extra\<close>.
\<close>

theorem matchPath_segmentwise:
  "(matchPath p r \<longleftrightarrow>
      (let ps = filterBoolean (split (CHR ''/'') p); rs = filterBoolean (split (CHR ''/'') r)
       in length ps = length rs
          \<and> (\<forall>i<length ps. (\<exists>rest. ps ! i = CHR '':'' # rest) \<or> ps ! i = rs ! i)))
   \<and> matchPath ''/api/notes/:id'' ''/api/notes/abc''
   \<and> getPathParams ''/api/notes/:id'' ''/api/notes/abc'' = [''id'' \<mapsto> Some ''abc'']
   \<and> \<not> matchPath ''/api/notes/:id'' ''/api/notes''
   \<and> \<not> matchPath ''/api/notes/:id'' ''/api/notes/abc/extra''"
proof (intro conjI)
  show "matchPath p r \<longleftrightarrow>
      (let ps = filterBoolean (split (CHR ''/'') p); rs = filterBoolean (split (CHR ''/'') r)
       in length ps = length rs
          \<and> (\<forall>i<length ps. (\<exists>rest. ps ! i = CHR '':'' # rest) \<or> ps ! i = rs ! i))"
    by (rule matchPath_iff)
  show "matchPath ''/api/notes/:id'' ''/api/notes/abc''" by code_simp
  show "getPathParams ''/api/notes/:id'' ''/api/notes/abc'' = [''id'' \<mapsto> Some ''abc'']"
    by (rule getPathParams_example)
  show "\<not> matchPath ''/api/notes/:id'' ''/api/notes''" by code_simp
  show "\<not> matchPath ''/api/notes/:id'' ''/api/notes/abc/extra''" by code_simp
qed

theorem matchPath_segmentwise_witness:
  "matchPath ''/x/:y'' ''//x/z/'' \<and> \<not> matchPath ''/x/y'' ''/x/z''"
proof -
  have ps: "filterBoolean (split (CHR ''/'') ''/x/:y'') = [''x'', '':y'']" by code_simp
  have rs: "filterBoolean (split (CHR ''/'') ''//x/z/'') = [''x'', ''z'']" by code_simp
  have ps2: "filterBoolean (split (CHR ''/'') ''/x/y'') = [''x'', ''y'']" by code_simp
  have rs2: "filterBoolean (split (CHR ''/'') ''/x/z'') = [''x'', ''z'']" by code_simp
  have a: "matchPath ''/x/:y'' ''//x/z/''"
    using matchPath_segmentwise [of "''/x/:y''" "''//x/z/''"]
    by (simp add: ps rs Let_def less_Suc_eq numeral_2_eq_2)
  have b: "\<not> matchPath ''/x/y'' ''/x/z''"
    using matchPath_segmentwise [of "''/x/y''" "''/x/z''"]
    by (auto simp: ps2 rs2 Let_def numeral_2_eq_2)
  from a b show ?thesis by simp
qed

subsection \<open>C5: first registered match wins, no match is 404\<close>

text \<open>
  C5: for a request whose method is not OPTIONS, \<open>handle\<close> runs the handler of the route
  at the least index whose method equals the request's and whose pattern matches the path
  (routes are kept in registration order); when no route matches it returns the 404
  response, which carries \<open>Access-Control-Allow-Origin: *\<close>.
\<close>

theorem handle_first_match:
  assumes "req_method req \<noteq> ''OPTIONS''"
  shows "(\<forall>i<length routes.
            (route_method (routes ! i) = req_method req
              \<and> matchPath (route_path (routes ! i)) (pathname req))
            \<and> (\<forall>j<i. \<not> (route_method (routes ! j) = req_method req
                         \<and> matchPath (route_path (routes ! j)) (pathname req)))
            \<longrightarrow> handle routes req s =
                  (case handler (routes ! i) req s of
                     (Inr resp, s') \<Rightarrow> (resp, s')
                   | (Inl err, s') \<Rightarrow> (routeErrorResponse, s')))
         \<and> ((\<forall>r \<in> set routes. \<not> (route_method r = req_method req
                                   \<and> matchPath (route_path r) (pathname req)))
            \<longrightarrow> handle routes req s = (notFoundResponse, s)
                \<and> status notFoundResponse = 404
                \<and> map_of (headers notFoundResponse) ''Access-Control-Allow-Origin'' = Some ''*'')"
proof (intro conjI allI impI)
  fix i
  let ?P = "\<lambda>r. route_method r = req_method req \<and> matchPath (route_path r) (pathname req)"
  assume i: "i < length routes"
    and m: "?P (routes ! i) \<and> (\<forall>j<i. \<not> ?P (routes ! j))"
  then have "List.find ?P routes = Some (routes ! i)"
    unfolding find_Some_iff by blast
  then show "handle routes req s =
                  (case handler (routes ! i) req s of
                     (Inr resp, s') \<Rightarrow> (resp, s')
                   | (Inl err, s') \<Rightarrow> (routeErrorResponse, s'))"
    using assms by (simp add: handle_def Let_def)
next
  let ?P = "\<lambda>r. route_method r = req_method req \<and> matchPath (route_path r) (pathname req)"
  assume "\<forall>r \<in> set routes. \<not> ?P r"
  then have "List.find ?P routes = None"
    unfolding find_None_iff by blast
  then show "handle routes req s = (notFoundResponse, s)"
    using assms by (simp add: handle_def Let_def)
next
  show "status notFoundResponse = 404" by (simp add: notFoundResponse_def)
next
  show "map_of (headers notFoundResponse) ''Access-Control-Allow-Origin'' = Some ''*''"
    by (simp add: notFoundResponse_def)
qed

theorem handle_first_match_witness:
  "handle
     (router_put ''/api/notes/:id'' (\<lambda>req s. (Inl ''boom'', Suc s))
       (router_get ''/api/notes'' (\<lambda>req s. (Inr (jsonResponse (JStr ''second'') 200), s))
         (router_get ''/api/notes'' (\<lambda>req s. (Inr (jsonResponse (JStr ''first'') 200), s)) [])))
     \<lparr>req_method = ''GET'', pathname = ''/api/notes'', authorization = None, body = None\<rparr>
     (0::nat)
   = (jsonResponse (JStr ''first'') 200, 0)
   \<and> handle
     (router_put ''/api/notes/:id'' (\<lambda>req s. (Inl ''boom'', Suc s))
       (router_get ''/api/notes'' (\<lambda>req s. (Inr (jsonResponse (JStr ''second'') 200), s))
         (router_get ''/api/notes'' (\<lambda>req s. (Inr (jsonResponse (JStr ''first'') 200), s)) [])))
     \<lparr>req_method = ''GET'', pathname = ''/nope'', authorization = None, body = None\<rparr>
     (0::nat)
   = (notFoundResponse, 0)"
proof -
  let ?h1 = "\<lambda>(req::request) (s::nat). (Inr (jsonResponse (JStr ''first'') 200) :: string + response, s)"
  let ?h2 = "\<lambda>(req::request) (s::nat). (Inr (jsonResponse (JStr ''second'') 200) :: string + response, s)"
  let ?h3 = "\<lambda>(req::request) (s::nat). (Inl ''boom'' :: string + response, Suc s)"
  let ?routes = "router_put ''/api/notes/:id'' ?h3
                   (router_get ''/api/notes'' ?h2 (router_get ''/api/notes'' ?h1 []))"
  let ?req1 = "\<lparr>req_method = ''GET'', pathname = ''/api/notes'', authorization = None, body = None\<rparr>"
  let ?req2 = "\<lparr>req_method = ''GET'', pathname = ''/nope'', authorization = None, body = None\<rparr>"
  have m1: "matchPath ''/api/notes'' ''/api/notes''" by code_simp
  have m2: "\<not> matchPath ''/api/notes'' ''/nope''" by code_simp
  have a: "handle ?routes ?req1 0 = (jsonResponse (JStr ''first'') 200, 0)"
    using handle_first_match [of ?req1 ?routes 0, THEN conjunct1, rule_format, of 0] m1
    by (simp add: router_put_def router_get_def)
  have b: "handle ?routes ?req2 0 = (notFoundResponse, 0)"
    using handle_first_match [of ?req2 ?routes 0, THEN conjunct2] m2
    by (simp add: router_put_def router_get_def)
  from a b show ?thesis by simp
qed

subsection \<open>C10: a throwing handler becomes the generic 500\<close>

text \<open>
  C10: when the matched route's handler throws, whatever the thrown value \<open>err\<close>,
  \<open>handle\<close> returns status 500 with \<open>Access-Control-Allow-Origin: *\<close> and the fixed JSON
  body \<open>{"error": "Route handler error"}\<close>, in which \<open>err\<close> does not occur.
\<close>

theorem handle_catches_handler_error:
  assumes "req_method req \<noteq> ''OPTIONS''"
    and "List.find (\<lambda>r. route_method r = req_method req
                        \<and> matchPath (route_path r) (pathname req)) routes = Some route"
    and "handler route req s = (Inl err, s')"
  shows "handle routes req s = (routeErrorResponse, s')
         \<and> status routeErrorResponse = 500
         \<and> map_of (headers routeErrorResponse) ''Access-Control-Allow-Origin'' = Some ''*''
         \<and> rbody routeErrorResponse = Json (JObj [(''error'', JStr ''Route handler error'')])"
  using assms by (simp add: handle_def Let_def routeErrorResponse_def)

theorem handle_catches_handler_error_witness:
  "handle
     (router_put ''/api/notes/:id'' (\<lambda>req s. (Inl ''boom'', Suc s))
       (router_get ''/api/notes'' (\<lambda>req s. (Inr (jsonResponse (JStr ''first'') 200), s)) []))
     \<lparr>req_method = ''PUT'', pathname = ''/api/notes/n1'', authorization = None, body = None\<rparr>
     (0::nat)
   = (routeErrorResponse, 1)"
proof -
  let ?h1 = "\<lambda>(req::request) (s::nat). (Inr (jsonResponse (JStr ''first'') 200) :: string + response, s)"
  let ?h3 = "\<lambda>(req::request) (s::nat). (Inl ''boom'' :: string + response, Suc s)"
  let ?routes = "router_put ''/api/notes/:id'' ?h3 (router_get ''/api/notes'' ?h1 [])"
  let ?req = "\<lparr>req_method = ''PUT'', pathname = ''/api/notes/n1'', authorization = None, body = None\<rparr>"
  let ?route = "\<lparr>route_method = ''PUT'', route_path = ''/api/notes/:id'', handler = ?h3\<rparr>"
  have m: "matchPath ''/api/notes/:id'' ''/api/notes/n1''" by code_simp
  have f: "List.find (\<lambda>r. route_method r = req_method ?req
                        \<and> matchPath (route_path r) (pathname ?req)) ?routes = Some ?route"
    using m by (simp add: router_put_def router_get_def)
  have h: "handler ?route ?req 0 = (Inl ''boom'', 1)" by simp
  have o: "req_method ?req \<noteq> ''OPTIONS''" by simp
  from handle_catches_handler_error [OF o f h] show ?thesis by simp
qed

subsection \<open>C6: the contract of \<open>register\<close>\<close>

text \<open>
  C6: for a body that parses, \<open>register\<close> answers 400 when the username or the password
  is missing or empty, or when the password has fewer than 6 characters; 409 when the
  username already has a stored record; otherwise it stores
  \<open>{id, username, passwordHash, createdAt}\<close> under the username, leaves every other key
  alone, and answers 201 with \<open>{token, user: {id, username, createdAt}}\<close>, a body with no
  \<open>passwordHash\<close> property. The failing answers leave the namespace unchanged.
\<close>

theorem register_contract:
  assumes "body req = Some b"
  shows
    "(\<not> truthy (b ''username'') \<or> \<not> truthy (b ''password'') \<longrightarrow>
        status (fst (register bcrypt_hash salt uuid now timestamp random req users)) = 400
        \<and> snd (register bcrypt_hash salt uuid now timestamp random req users) = users)
     \<and> (\<forall>uname password.
          b ''username'' = Some uname \<and> b ''password'' = Some password
          \<and> uname \<noteq> [] \<and> password \<noteq> [] \<longrightarrow>
          (length password < 6 \<longrightarrow>
             status (fst (register bcrypt_hash salt uuid now timestamp random req users)) = 400
             \<and> snd (register bcrypt_hash salt uuid now timestamp random req users) = users)
          \<and> (6 \<le> length password \<and> kv_get users uname \<noteq> None \<longrightarrow>
             status (fst (register bcrypt_hash salt uuid now timestamp random req users)) = 409
             \<and> snd (register bcrypt_hash salt uuid now timestamp random req users) = users)
          \<and> (6 \<le> length password \<and> kv_get users uname = None \<longrightarrow>
             status (fst (register bcrypt_hash salt uuid now timestamp random req users)) = 201
             \<and> rbody (fst (register bcrypt_hash salt uuid now timestamp random req users)) =
                 Json (JObj [(''token'', JStr (generateToken uuid timestamp random)),
                             (''user'', JObj [(''id'', JStr uuid), (''username'', JStr uname),
                                              (''createdAt'', JStr now)])])
             \<and> ''passwordHash'' \<notin> set (json_keys
                 (JObj [(''token'', JStr (generateToken uuid timestamp random)),
                        (''user'', JObj [(''id'', JStr uuid), (''username'', JStr uname),
                                         (''createdAt'', JStr now)])]))
             \<and> kv_get (snd (register bcrypt_hash salt uuid now timestamp random req users)) uname =
                 Some \<lparr>user_id = uuid, username = uname,
                       passwordHash = bcrypt_hash password 12 salt, user_createdAt = now\<rparr>
             \<and> (\<forall>k. k \<noteq> uname \<longrightarrow>
                  kv_get (snd (register bcrypt_hash salt uuid now timestamp random req users)) k =
                  kv_get users k)))"
  using assms
  by (auto simp: register_def errorResponse_def jsonResponse_def authResponse_def publicUser_def
        kv_get_put Let_def)

theorem register_contract_witness:
  "status (fst (register (\<lambda>pw cost salt. salt @ pw) ''s'' ''id-1'' ''t0'' ''5'' ''r''
       \<lparr>req_method = ''POST'', pathname = ''/api/auth/register'', authorization = None,
        body = Some [''username'' \<mapsto> ''alice'', ''password'' \<mapsto> ''secret1'']\<rparr> [])) = 201
   \<and> snd (register (\<lambda>pw cost salt. salt @ pw) ''s'' ''id-1'' ''t0'' ''5'' ''r''
       \<lparr>req_method = ''POST'', pathname = ''/api/auth/register'', authorization = None,
        body = Some [''username'' \<mapsto> ''alice'', ''password'' \<mapsto> ''secret1'']\<rparr> [])
     = [(''alice'', \<lparr>user_id = ''id-1'', username = ''alice'', passwordHash = ''ssecret1'',
                      user_createdAt = ''t0''\<rparr>)]
   \<and> status (fst (register (\<lambda>pw cost salt. salt @ pw) ''s'' ''id-2'' ''t1'' ''6'' ''r''
       \<lparr>req_method = ''POST'', pathname = ''/api/auth/register'', authorization = None,
        body = Some [''username'' \<mapsto> ''alice'', ''password'' \<mapsto> ''secret2'']\<rparr>
       [(''alice'', \<lparr>user_id = ''id-1'', username = ''alice'', passwordHash = ''ssecret1'',
                      user_createdAt = ''t0''\<rparr>)])) = 409
   \<and> status (fst (register (\<lambda>pw cost salt. salt @ pw) ''s'' ''id-2'' ''t1'' ''6'' ''r''
       \<lparr>req_method = ''POST'', pathname = ''/api/auth/register'', authorization = None,
        body = Some [''username'' \<mapsto> ''bob'', ''password'' \<mapsto> ''short'']\<rparr> [])) = 400
   \<and> status (fst (register (\<lambda>pw cost salt. salt @ pw) ''s'' ''id-2'' ''t1'' ''6'' ''r''
       \<lparr>req_method = ''POST'', pathname = ''/api/auth/register'', authorization = None,
        body = Some [''username'' \<mapsto> ''bob'']\<rparr> [])) = 400"
proof -
  let ?h = "\<lambda>(pw::string) (cost::nat) (salt::string). salt @ pw"
  let ?b1 = "[''username'' \<mapsto> ''alice'', ''password'' \<mapsto> ''secret1'']"
  let ?b2 = "[''username'' \<mapsto> ''alice'', ''password'' \<mapsto> ''secret2'']"
  let ?b3 = "[''username'' \<mapsto> ''bob'', ''password'' \<mapsto> ''short'']"
  let ?b4 = "[''username'' \<mapsto> ''bob'']"
  let ?rq = "\<lambda>b. \<lparr>req_method = ''POST'', pathname = ''/api/auth/register'', authorization = None,
        body = Some b\<rparr>"
  let ?alice = "\<lparr>user_id = ''id-1'', username = ''alice'', passwordHash = ''ssecret1'',
                      user_createdAt = ''t0''\<rparr>"
  have a: "status (fst (register ?h ''s'' ''id-1'' ''t0'' ''5'' ''r'' (?rq ?b1) [])) = 201"
    using register_contract [of "?rq ?b1" ?b1 ?h "''s''" "''id-1''" "''t0''" "''5''" "''r''" "[]"]
    by (simp add: kv_get_def)
  have a': "snd (register ?h ''s'' ''id-1'' ''t0'' ''5'' ''r'' (?rq ?b1) []) = [(''alice'', ?alice)]"
    by (simp add: register_def kv_get_def kv_put_def Let_def)
  have b: "status (fst (register ?h ''s'' ''id-2'' ''t1'' ''6'' ''r'' (?rq ?b2) [(''alice'', ?alice)])) = 409"
    using register_contract [of "?rq ?b2" ?b2 ?h "''s''" "''id-2''" "''t1''" "''6''" "''r''"
                                "[(''alice'', ?alice)]"]
    by (simp add: kv_get_def)
  have c: "status (fst (register ?h ''s'' ''id-2'' ''t1'' ''6'' ''r'' (?rq ?b3) [])) = 400"
    using register_contract [of "?rq ?b3" ?b3 ?h "''s''" "''id-2''" "''t1''" "''6''" "''r''" "[]"]
    by simp
  have d: "status (fst (register ?h ''s'' ''id-2'' ''t1'' ''6'' ''r'' (?rq ?b4) [])) = 400"
    using register_contract [of "?rq ?b4" ?b4 ?h "''s''" "''id-2''" "''t1''" "''6''" "''r''" "[]"]
    by simp
  from a a' b c d show ?thesis by simp
qed

subsection \<open>C7: \<open>login\<close> does not reveal whether a username exists\<close>

text \<open>
  C7: a login request whose username has no stored record and a login request whose
  username exists but whose password fails \<open>bcrypt.compare\<close> get the same response:
  status 401 with the body \<open>{"error": "Invalid credentials"}\<close>. Both requests carry a
  non-empty username and password, as a login attempt does.
\<close>

theorem login_no_enumeration:
  assumes "body req1 = Some b1" and "b1 ''username'' = Some uname1"
    and "b1 ''password'' = Some password1" and "uname1 \<noteq> []" and "password1 \<noteq> []"
    and "kv_get users uname1 = None"
    and "body req2 = Some b2" and "b2 ''username'' = Some uname2"
    and "b2 ''password'' = Some password2" and "uname2 \<noteq> []" and "password2 \<noteq> []"
    and "kv_get users uname2 = Some u2"
    and "\<not> bcrypt_compare password2 (passwordHash u2)"
  shows "login bcrypt_compare timestamp1 random1 req1 users
           = login bcrypt_compare timestamp2 random2 req2 users
         \<and> login bcrypt_compare timestamp1 random1 req1 users
           = errorResponse ''Invalid credentials'' 401
         \<and> status (login bcrypt_compare timestamp2 random2 req2 users) = 401
         \<and> rbody (login bcrypt_compare timestamp2 random2 req2 users)
           = Json (JObj [(''error'', JStr ''Invalid credentials'')])"
  using assms by (simp add: login_def errorResponse_def jsonResponse_def)

theorem login_no_enumeration_witness:
  "login (\<lambda>pw h. h = ''s'' @ pw) ''5'' ''r''
     \<lparr>req_method = ''POST'', pathname = ''/api/auth/login'', authorization = None,
      body = Some [''username'' \<mapsto> ''bob'', ''password'' \<mapsto> ''secret1'']\<rparr>
     [(''alice'', \<lparr>user_id = ''id-1'', username = ''alice'', passwordHash = ''ssecret1'',
                    user_createdAt = ''t0''\<rparr>)]
   = login (\<lambda>pw h. h = ''s'' @ pw) ''6'' ''q''
     \<lparr>req_method = ''POST'', pathname = ''/api/auth/login'', authorization = None,
      body = Some [''username'' \<mapsto> ''alice'', ''password'' \<mapsto> ''wrong''] \<rparr>
     [(''alice'', \<lparr>user_id = ''id-1'', username = ''alice'', passwordHash = ''ssecret1'',
                    user_createdAt = ''t0''\<rparr>)]
   \<and> status (login (\<lambda>pw h. h = ''s'' @ pw) ''6'' ''q''
     \<lparr>req_method = ''POST'', pathname = ''/api/auth/login'', authorization = None,
      body = Some [''username'' \<mapsto> ''alice'', ''password'' \<mapsto> ''wrong''] \<rparr>
     [(''alice'', \<lparr>user_id = ''id-1'', username = ''alice'', passwordHash = ''ssecret1'',
                    user_createdAt = ''t0''\<rparr>)]) = 401"
proof -
  let ?cmp = "\<lambda>(pw::string) (h::string). h = ''s'' @ pw"
  let ?b1 = "[''username'' \<mapsto> ''bob'', ''password'' \<mapsto> ''secret1'']"
  let ?b2 = "[''username'' \<mapsto> ''alice'', ''password'' \<mapsto> ''wrong'']"
  let ?rq = "\<lambda>b. \<lparr>req_method = ''POST'', pathname = ''/api/auth/login'', authorization = None,
        body = Some b\<rparr>"
  let ?alice = "\<lparr>user_id = ''id-1'', username = ''alice'', passwordHash = ''ssecret1'',
                      user_createdAt = ''t0''\<rparr>"
  have "login ?cmp ''5'' ''r'' (?rq ?b1) [(''alice'', ?alice)]
          = login ?cmp ''6'' ''q'' (?rq ?b2) [(''alice'', ?alice)]
        \<and> status (login ?cmp ''6'' ''q'' (?rq ?b2) [(''alice'', ?alice)]) = 401"
    using login_no_enumeration [of "?rq ?b1" ?b1 "''bob''" "''secret1''" "[(''alice'', ?alice)]"
             "?rq ?b2" ?b2 "''alice''" "''wrong''" ?alice ?cmp "''5''" "''r''" "''6''" "''q''"]
    by (simp add: kv_get_def)
  then show ?thesis by simp
qed

subsection \<open>C3: a user's operations never touch another user's note\<close>

text \<open>
  C3: let the namespace be in the shape the controller maintains, with note ids unique,
  and let \<open>x\<close> be a stored note whose owner is not the authenticated user \<open>u\<close>. Then
  listing for \<open>u\<close> returns only notes owned by \<open>u\<close>, so never \<open>x\<close>; updating \<open>x\<close> by
  its id (with a valid body) and deleting it by its id on behalf of \<open>u\<close> both answer 404
  and leave the namespace as it was; and whatever request \<open>u\<close> sends to any of the four
  handlers, the entry of \<open>x\<close> stays as it is.
\<close>

theorem note_isolation:
  assumes ok: "store_ok s" and uniq: "ids_unique s"
    and authL: "authenticateRequest reqL = Some u"
    and authU: "authenticateRequest reqU = Some u"
    and authD: "authenticateRequest reqD = Some u"
    and stored: "kv_get s k = Some x" and other: "userId x \<noteq> u"
    and pathU: "pop (split (CHR ''/'') (pathname reqU)) = Some (note_id x)"
    and pathD: "pop (split (CHR ''/'') (pathname reqD)) = Some (note_id x)"
    and idne: "note_id x \<noteq> []"
    and bodyU: "body reqU = Some b" and validU: "truthy (b ''title'') \<or> truthy (b ''content'')"
  shows "getNotes getTime reqL s =
           (jsonResponse (JObj [(''notes'', JArr (map note_json (listNotes getTime u s)))]) 200, s)
         \<and> x \<notin> set (listNotes getTime u s)
         \<and> (\<forall>y \<in> set (listNotes getTime u s). userId y = u)
         \<and> updateNote now reqU s = (errorResponse ''Note not found'' 404, s)
         \<and> deleteNote reqD s = (errorResponse ''Note not found'' 404, s)
         \<and> status (errorResponse ''Note not found'' 404) = 404
         \<and> (\<forall>r. authenticateRequest r = Some u \<longrightarrow>
               kv_get (snd (createNote uuid now1 now2 r s)) k = Some x
               \<and> kv_get (snd (updateNote now r s)) k = Some x
               \<and> kv_get (snd (deleteNote r s)) k = Some x
               \<and> snd (getNotes getTime r s) = s)"
proof -
  have u: "CHR '':'' \<notin> set u" using auth_Some_shape [OF authL] by simp
  have own: "\<forall>y \<in> set (listNotes getTime u s). userId y = u"
    using listNotes_owner [OF ok u] by blast
  have vac: "kv_get s (noteKey u (note_id x)) = None"
    by (rule foreign_key_vacant [OF ok uniq stored other u])
  have "getNotes getTime reqL s =
           (jsonResponse (JObj [(''notes'', JArr (map note_json (listNotes getTime u s)))]) 200, s)"
    using authL by (simp add: getNotes_def)
  moreover have "x \<notin> set (listNotes getTime u s)" using own other by blast
  moreover have "updateNote now reqU s = (errorResponse ''Note not found'' 404, s)"
    using authU pathU idne bodyU validU vac by (auto simp: updateNote_def)
  moreover have "deleteNote reqD s = (errorResponse ''Note not found'' 404, s)"
    using authD pathD idne vac by (simp add: deleteNote_def)
  moreover have "status (errorResponse ''Note not found'' 404) = 404"
    by (simp add: errorResponse_def jsonResponse_def)
  moreover have "\<forall>r. authenticateRequest r = Some u \<longrightarrow>
               kv_get (snd (createNote uuid now1 now2 r s)) k = Some x
               \<and> kv_get (snd (updateNote now r s)) k = Some x
               \<and> kv_get (snd (deleteNote r s)) k = Some x
               \<and> snd (getNotes getTime r s) = s"
    using op_keeps_foreign [OF ok stored other] by blast
  ultimately show ?thesis using own by blast
qed

theorem note_isolation_witness:
  "updateNote ''2024-01-03T00:00:00.000Z''
     \<lparr>req_method = ''PUT'', pathname = ''/api/notes/n1'',
      authorization = Some ''Bearer YWxpY2U6MTpy'', body = Some [''title'' \<mapsto> ''mine'']\<rparr>
     [(''user:bob:notes:n1'',
       \<lparr>note_id = ''n1'', userId = ''bob'', title = ''B'', content = ''secret'',
        createdAt = ''2024-01-01T00:00:00.000Z'', updatedAt = ''2024-01-01T00:00:00.000Z''\<rparr>),
      (''user:alice:notes:n2'',
       \<lparr>note_id = ''n2'', userId = ''alice'', title = ''A'', content = ''hello'',
        createdAt = ''2024-01-02T00:00:00.000Z'', updatedAt = ''2024-01-02T00:00:00.000Z''\<rparr>)]
   = (errorResponse ''Note not found'' 404,
      [(''user:bob:notes:n1'',
       \<lparr>note_id = ''n1'', userId = ''bob'', title = ''B'', content = ''secret'',
        createdAt = ''2024-01-01T00:00:00.000Z'', updatedAt = ''2024-01-01T00:00:00.000Z''\<rparr>),
      (''user:alice:notes:n2'',
       \<lparr>note_id = ''n2'', userId = ''alice'', title = ''A'', content = ''hello'',
        createdAt = ''2024-01-02T00:00:00.000Z'', updatedAt = ''2024-01-02T00:00:00.000Z''\<rparr>)])
   \<and> fst (deleteNote
     \<lparr>req_method = ''DELETE'', pathname = ''/api/notes/n1'',
      authorization = Some ''Bearer YWxpY2U6MTpy'', body = None\<rparr>
     [(''user:bob:notes:n1'',
       \<lparr>note_id = ''n1'', userId = ''bob'', title = ''B'', content = ''secret'',
        createdAt = ''2024-01-01T00:00:00.000Z'', updatedAt = ''2024-01-01T00:00:00.000Z''\<rparr>),
      (''user:alice:notes:n2'',
       \<lparr>note_id = ''n2'', userId = ''alice'', title = ''A'', content = ''hello'',
        createdAt = ''2024-01-02T00:00:00.000Z'', updatedAt = ''2024-01-02T00:00:00.000Z''\<rparr>)])
     = errorResponse ''Note not found'' 404
   \<and> \<lparr>note_id = ''n1'', userId = ''bob'', title = ''B'', content = ''secret'',
        createdAt = ''2024-01-01T00:00:00.000Z'', updatedAt = ''2024-01-01T00:00:00.000Z''\<rparr>
     \<notin> set (listNotes (\<lambda>t. 0)  ''alice''
     [(''user:bob:notes:n1'',
       \<lparr>note_id = ''n1'', userId = ''bob'', title = ''B'', content = ''secret'',
        createdAt = ''2024-01-01T00:00:00.000Z'', updatedAt = ''2024-01-01T00:00:00.000Z''\<rparr>),
      (''user:alice:notes:n2'',
       \<lparr>note_id = ''n2'', userId = ''alice'', title = ''A'', content = ''hello'',
        createdAt = ''2024-01-02T00:00:00.000Z'', updatedAt = ''2024-01-02T00:00:00.000Z''\<rparr>)])"
proof -
  let ?bob = "\<lparr>note_id = ''n1'', userId = ''bob'', title = ''B'', content = ''secret'',
        createdAt = ''2024-01-01T00:00:00.000Z'', updatedAt = ''2024-01-01T00:00:00.000Z''\<rparr>"
  let ?alice = "\<lparr>note_id = ''n2'', userId = ''alice'', title = ''A'', content = ''hello'',
        createdAt = ''2024-01-02T00:00:00.000Z'', updatedAt = ''2024-01-02T00:00:00.000Z''\<rparr>"
  let ?s = "[(''user:bob:notes:n1'', ?bob), (''user:alice:notes:n2'', ?alice)]"
  let ?b = "[''title'' \<mapsto> ''mine'']"
  let ?reqL = "\<lparr>req_method = ''GET'', pathname = ''/api/notes'',
      authorization = Some ''Bearer YWxpY2U6MTpy'', body = None\<rparr>"
  let ?reqU = "\<lparr>req_method = ''PUT'', pathname = ''/api/notes/n1'',
      authorization = Some ''Bearer YWxpY2U6MTpy'', body = Some ?b\<rparr>"
  let ?reqD = "\<lparr>req_method = ''DELETE'', pathname = ''/api/notes/n1'',
      authorization = Some ''Bearer YWxpY2U6MTpy'', body = None\<rparr>"
  have ok: "store_ok ?s" by (simp add: store_ok_def entry_ok_def noteKey_def)
  have uniq: "ids_unique ?s" by (simp add: ids_unique_def)
  have aL: "authenticateRequest ?reqL = Some ''alice''" by (rule auth_alice) simp
  have aU: "authenticateRequest ?reqU = Some ''alice''" by (rule auth_alice) simp
  have aD: "authenticateRequest ?reqD = Some ''alice''" by (rule auth_alice) simp
  have st: "kv_get ?s ''user:bob:notes:n1'' = Some ?bob" by (simp add: kv_get_def)
  have ot: "userId ?bob \<noteq> ''alice''" by simp
  have pU: "pop (split (CHR ''/'') (pathname ?reqU)) = Some (note_id ?bob)" using pop_n1 by simp
  have pD: "pop (split (CHR ''/'') (pathname ?reqD)) = Some (note_id ?bob)" using pop_n1 by simp
  have ne: "note_id ?bob \<noteq> []" by simp
  have bU: "body ?reqU = Some ?b" by simp
  have vU: "truthy (?b ''title'') \<or> truthy (?b ''content'')" by simp
  from note_isolation [OF ok uniq aL aU aD st ot pU pD ne bU vU,
         of "\<lambda>t. 0" "''2024-01-03T00:00:00.000Z''"]
  show ?thesis by simp
qed

subsection \<open>C8: what \<open>updateNote\<close> changes\<close>

text \<open>
  C8, as stated, has every update refresh \<open>updatedAt\<close> to a value no earlier than the
  previous one. \<open>updateNote\<close> writes the clock reading and never looks at the stored
  value: an update at \<open>2023-12-31T23:59:59.000Z\<close> of a note last updated at
  \<open>2024-01-02T00:00:00.000Z\<close> answers 200 and stores the earlier timestamp.
\<close>

theorem updateNote_lowers_updatedAt_counterexample:
  "updateNote ''2023-12-31T23:59:59.000Z''
     \<lparr>req_method = ''PUT'', pathname = ''/api/notes/n1'',
      authorization = Some ''Bearer YWxpY2U6MTpy'', body = Some [''title'' \<mapsto> ''T2'']\<rparr>
     [(''user:alice:notes:n1'',
       \<lparr>note_id = ''n1'', userId = ''alice'', title = ''T'', content = ''C'',
        createdAt = ''2024-01-01T00:00:00.000Z'',
        updatedAt = ''2024-01-02T00:00:00.000Z''\<rparr>)]
   = (jsonResponse (JObj [(''note'', note_json
        \<lparr>note_id = ''n1'', userId = ''alice'', title = ''T2'', content = ''C'',
         createdAt = ''2024-01-01T00:00:00.000Z'',
         updatedAt = ''2023-12-31T23:59:59.000Z''\<rparr>)]) 200,
      [(''user:alice:notes:n1'',
        \<lparr>note_id = ''n1'', userId = ''alice'', title = ''T2'', content = ''C'',
         createdAt = ''2024-01-01T00:00:00.000Z'',
         updatedAt = ''2023-12-31T23:59:59.000Z''\<rparr>)])
   \<and> iso_millis ''2024-01-02T00:00:00.000Z'' = Some 1704153600000
   \<and> iso_millis ''2023-12-31T23:59:59.000Z'' = Some 1704067199000
   \<and> (1704067199000::int) < 1704153600000"
proof -
  let ?req = "\<lparr>req_method = ''PUT'', pathname = ''/api/notes/n1'',
      authorization = Some ''Bearer YWxpY2U6MTpy'', body = Some [''title'' \<mapsto> ''T2'']\<rparr>"
  have au: "authenticateRequest ?req = Some ''alice''" by (rule auth_alice) simp
  have pp: "pop (split (CHR ''/'') (pathname ?req)) = Some ''n1''" using pop_n1 by simp
  have old: "iso_millis ''2024-01-02T00:00:00.000Z'' = Some 1704153600000" by code_simp
  have new: "iso_millis ''2023-12-31T23:59:59.000Z'' = Some 1704067199000" by code_simp
  show ?thesis
    using au pp old new
    by (simp add: updateNote_def Let_def noteKey_def kv_get_def kv_put_def)
qed

text \<open>
  C8, amended: for an authenticated update of the note id \<open>nid\<close> with a body that parses:
  when the note exists under the caller's key and the body supplies a title or a content,
  the answer is 200 and the stored note keeps its id, owner and \<open>createdAt\<close>, takes each
  supplied field and keeps each unsupplied one, and gets the clock reading taken during
  the update as \<open>updatedAt\<close>, whatever the previous value was; no other key changes. A
  body with neither field is rejected with 400 and an unknown (or foreign) note id with
  404, both leaving the namespace unchanged.
\<close>

theorem updateNote_frame:
  assumes "authenticateRequest req = Some u"
    and "pop (split (CHR ''/'') (pathname req)) = Some nid" and "nid \<noteq> []"
    and "body req = Some b"
  shows
    "(\<forall>old. (truthy (b ''title'') \<or> truthy (b ''content''))
            \<and> kv_get s (noteKey u nid) = Some old \<longrightarrow>
        (\<exists>new. updateNote now req s =
                 (jsonResponse (JObj [(''note'', note_json new)]) 200,
                  kv_put s (noteKey u nid) new)
              \<and> kv_get (snd (updateNote now req s)) (noteKey u nid) = Some new
              \<and> note_id new = note_id old \<and> userId new = userId old
              \<and> createdAt new = createdAt old
              \<and> (\<forall>t. b ''title'' = Some t \<longrightarrow> title new = t)
              \<and> (b ''title'' = None \<longrightarrow> title new = title old)
              \<and> (\<forall>c. b ''content'' = Some c \<longrightarrow> content new = c)
              \<and> (b ''content'' = None \<longrightarrow> content new = content old)
              \<and> updatedAt new = now)
        \<and> (\<forall>k. k \<noteq> noteKey u nid \<longrightarrow>
               kv_get (snd (updateNote now req s)) k = kv_get s k))
     \<and> (\<not> truthy (b ''title'') \<and> \<not> truthy (b ''content'') \<longrightarrow>
          updateNote now req s =
            (errorResponse ''At least title or content must be provided'' 400, s)
          \<and> status (fst (updateNote now req s)) = 400)
     \<and> ((truthy (b ''title'') \<or> truthy (b ''content''))
          \<and> kv_get s (noteKey u nid) = None \<longrightarrow>
          updateNote now req s = (errorResponse ''Note not found'' 404, s)
          \<and> status (fst (updateNote now req s)) = 404)"
proof (intro conjI allI impI)
  fix old
  assume a: "(truthy (b ''title'') \<or> truthy (b ''content''))
            \<and> kv_get s (noteKey u nid) = Some old"
  define new where "new = old
       \<lparr>title := (case b ''title'' of Some t \<Rightarrow> t | None \<Rightarrow> title old),
        content := (case b ''content'' of Some c \<Rightarrow> c | None \<Rightarrow> content old),
        updatedAt := now\<rparr>"
  have r: "updateNote now req s =
             (jsonResponse (JObj [(''note'', note_json new)]) 200, kv_put s (noteKey u nid) new)"
    using assms a by (auto simp: updateNote_def Let_def new_def)
  show "\<exists>new. updateNote now req s =
                 (jsonResponse (JObj [(''note'', note_json new)]) 200,
                  kv_put s (noteKey u nid) new)
              \<and> kv_get (snd (updateNote now req s)) (noteKey u nid) = Some new
              \<and> note_id new = note_id old \<and> userId new = userId old
              \<and> createdAt new = createdAt old
              \<and> (\<forall>t. b ''title'' = Some t \<longrightarrow> title new = t)
              \<and> (b ''title'' = None \<longrightarrow> title new = title old)
              \<and> (\<forall>c. b ''content'' = Some c \<longrightarrow> content new = c)
              \<and> (b ''content'' = None \<longrightarrow> content new = content old)
              \<and> updatedAt new = now"
    by (rule exI [of _ new]) (simp add: r kv_get_put, simp add: new_def)
  show "\<And>k. k \<noteq> noteKey u nid \<Longrightarrow> kv_get (snd (updateNote now req s)) k = kv_get s k"
    by (simp add: r kv_get_put)
next
  assume a: "\<not> truthy (b ''title'') \<and> \<not> truthy (b ''content'')"
  show "updateNote now req s =
            (errorResponse ''At least title or content must be provided'' 400, s)"
    using assms a by (simp add: updateNote_def)
  then show "status (fst (updateNote now req s)) = 400"
    by (simp add: errorResponse_def jsonResponse_def)
next
  assume a: "(truthy (b ''title'') \<or> truthy (b ''content''))
          \<and> kv_get s (noteKey u nid) = None"
  show "updateNote now req s = (errorResponse ''Note not found'' 404, s)"
    using assms a by (auto simp: updateNote_def)
  then show "status (fst (updateNote now req s)) = 404"
    by (simp add: errorResponse_def jsonResponse_def)
qed

theorem updateNote_frame_witness:
  "(\<exists>new. kv_get (snd (updateNote ''2024-01-03T00:00:00.000Z''
       \<lparr>req_method = ''PUT'', pathname = ''/api/notes/n1'',
        authorization = Some ''Bearer YWxpY2U6MTpy'', body = Some [''title'' \<mapsto> ''T2'']\<rparr>
       [(''user:alice:notes:n1'',
         \<lparr>note_id = ''n1'', userId = ''alice'', title = ''T'', content = ''C'',
          createdAt = ''2024-01-01T00:00:00.000Z'',
          updatedAt = ''2024-01-02T00:00:00.000Z''\<rparr>)])) ''user:alice:notes:n1'' = Some new
      \<and> note_id new = ''n1'' \<and> userId new = ''alice''
      \<and> createdAt new = ''2024-01-01T00:00:00.000Z''
      \<and> title new = ''T2'' \<and> content new = ''C''
      \<and> updatedAt new = ''2024-01-03T00:00:00.000Z'')
   \<and> fst (updateNote ''2024-01-03T00:00:00.000Z''
       \<lparr>req_method = ''PUT'', pathname = ''/api/notes/n1'',
        authorization = Some ''Bearer YWxpY2U6MTpy'', body = Some Map.empty\<rparr>
       [(''user:alice:notes:n1'',
         \<lparr>note_id = ''n1'', userId = ''alice'', title = ''T'', content = ''C'',
          createdAt = ''2024-01-01T00:00:00.000Z'',
          updatedAt = ''2024-01-02T00:00:00.000Z''\<rparr>)])
     = errorResponse ''At least title or content must be provided'' 400
   \<and> fst (updateNote ''2024-01-03T00:00:00.000Z''
       \<lparr>req_method = ''PUT'', pathname = ''/api/notes/n1'',
        authorization = Some ''Bearer YWxpY2U6MTpy'', body = Some [''title'' \<mapsto> ''T2'']\<rparr>
       [])
     = errorResponse ''Note not found'' 404"
proof -
  let ?old = "\<lparr>note_id = ''n1'', userId = ''alice'', title = ''T'', content = ''C'',
          createdAt = ''2024-01-01T00:00:00.000Z'',
          updatedAt = ''2024-01-02T00:00:00.000Z''\<rparr>"
  let ?s = "[(''user:alice:notes:n1'', ?old)]"
  let ?now = "''2024-01-03T00:00:00.000Z''"
  let ?rq = "\<lambda>b. \<lparr>req_method = ''PUT'', pathname = ''/api/notes/n1'',
        authorization = Some ''Bearer YWxpY2U6MTpy'', body = Some b\<rparr>"
  let ?b1 = "[''title'' \<mapsto> ''T2'']"
  have au: "\<And>b. authenticateRequest (?rq b) = Some ''alice''" by (rule auth_alice) simp
  have pp: "\<And>b. pop (split (CHR ''/'') (pathname (?rq b))) = Some ''n1''" using pop_n1 by simp
  have ne: "''n1'' \<noteq> []" by simp
  have bd: "\<And>b. body (?rq b) = Some b" by simp
  have key: "noteKey ''alice'' ''n1'' = ''user:alice:notes:n1''" by (simp add: noteKey_def)
  have a: "\<exists>new. kv_get (snd (updateNote ?now (?rq ?b1) ?s)) ''user:alice:notes:n1'' = Some new
      \<and> note_id new = ''n1'' \<and> userId new = ''alice''
      \<and> createdAt new = ''2024-01-01T00:00:00.000Z''
      \<and> title new = ''T2'' \<and> content new = ''C''
      \<and> updatedAt new = ?now"
    using updateNote_frame [OF au pp ne bd, of ?b1 ?s ?now, THEN conjunct1, rule_format, of ?old]
    by (auto simp: key kv_get_def)
  have b: "fst (updateNote ?now (?rq Map.empty) ?s)
             = errorResponse ''At least title or content must be provided'' 400"
    using updateNote_frame [OF au pp ne bd, of Map.empty ?s ?now] by simp
  have c: "fst (updateNote ?now (?rq ?b1) []) = errorResponse ''Note not found'' 404"
    using updateNote_frame [OF au pp ne bd, of ?b1 "[]" ?now] by (simp add: kv_get_def)
  from a b c show ?thesis by simp
qed

subsection \<open>C9: create, then list\<close>

text \<open>
  C9 says that the one note listed after a create has \<open>createdAt\<close> equal to \<open>updatedAt\<close>.
  \<open>createNote\<close> reads the clock twice, once for each field. When the clock moves from
  \<open>2024-01-01T00:00:00.000Z\<close> to \<open>2024-01-01T00:00:00.001Z\<close> between the two reads, the
  listing holds exactly one note, with the supplied title and content, whose \<open>createdAt\<close>
  differs from its \<open>updatedAt\<close>.
\<close>

theorem createNote_two_clock_reads:
  "listNotes getTime ''alice''
     (snd (createNote ''n1'' ''2024-01-01T00:00:00.000Z'' ''2024-01-01T00:00:00.001Z''
        \<lparr>req_method = ''POST'', pathname = ''/api/notes'',
         authorization = Some ''Bearer YWxpY2U6MTpy'',
         body = Some [''title'' \<mapsto> ''T'', ''content'' \<mapsto> ''C'']\<rparr> []))
   = [\<lparr>note_id = ''n1'', userId = ''alice'', title = ''T'', content = ''C'',
       createdAt = ''2024-01-01T00:00:00.000Z'', updatedAt = ''2024-01-01T00:00:00.001Z''\<rparr>]
   \<and> createdAt (hd (listNotes getTime ''alice''
     (snd (createNote ''n1'' ''2024-01-01T00:00:00.000Z'' ''2024-01-01T00:00:00.001Z''
        \<lparr>req_method = ''POST'', pathname = ''/api/notes'',
         authorization = Some ''Bearer YWxpY2U6MTpy'',
         body = Some [''title'' \<mapsto> ''T'', ''content'' \<mapsto> ''C'']\<rparr> []))))
     \<noteq> updatedAt (hd (listNotes getTime ''alice''
     (snd (createNote ''n1'' ''2024-01-01T00:00:00.000Z'' ''2024-01-01T00:00:00.001Z''
        \<lparr>req_method = ''POST'', pathname = ''/api/notes'',
         authorization = Some ''Bearer YWxpY2U6MTpy'',
         body = Some [''title'' \<mapsto> ''T'', ''content'' \<mapsto> ''C'']\<rparr> []))))"
proof -
  let ?req = "\<lparr>req_method = ''POST'', pathname = ''/api/notes'',
         authorization = Some ''Bearer YWxpY2U6MTpy'',
         body = Some [''title'' \<mapsto> ''T'', ''content'' \<mapsto> ''C'']\<rparr>"
  have a: "authenticateRequest ?req = Some ''alice''" by (rule auth_alice) simp
  have "listNotes getTime ''alice''
     (snd (createNote ''n1'' ''2024-01-01T00:00:00.000Z'' ''2024-01-01T00:00:00.001Z'' ?req []))
   = [\<lparr>note_id = ''n1'', userId = ''alice'', title = ''T'', content = ''C'',
       createdAt = ''2024-01-01T00:00:00.000Z'', updatedAt = ''2024-01-01T00:00:00.001Z''\<rparr>]"
    by (rule createNote_then_listNotes(2) [OF a, of "[''title'' \<mapsto> ''T'', ''content'' \<mapsto> ''C'']"])
       (simp_all add: kv_list_def)
  then show ?thesis by simp
qed

theorem createNote_two_clock_reads_witness:
  "map (\<lambda>n. (title n, content n, createdAt n, updatedAt n))
     (listNotes (\<lambda>t. 0) ''alice''
       (snd (createNote ''n1'' ''2024-01-01T00:00:00.000Z'' ''2024-01-01T00:00:00.001Z''
          \<lparr>req_method = ''POST'', pathname = ''/api/notes'',
           authorization = Some ''Bearer YWxpY2U6MTpy'',
           body = Some [''title'' \<mapsto> ''T'', ''content'' \<mapsto> ''C'']\<rparr> [])))
   = [(''T'', ''C'', ''2024-01-01T00:00:00.000Z'', ''2024-01-01T00:00:00.001Z'')]"
  using createNote_two_clock_reads [of "\<lambda>t. 0"] by simp

end
